theory Spec2Isabelle
  imports Main
begin

section \<open>JavaScript values used by the pages\<close>

text \<open>
  A JavaScript number is modelled as an integer or \<open>NaN\<close>. Every number the modelled
  functions handle is a count, a millisecond time value or a difference of two time
  values, so it is an integer; the model is exact for integers of magnitude up to
  \<open>2^53 - 1\<close>, where a double holds every integer and \<open>i++\<close> is exact.
\<close>

datatype number = NaN | Num int

definition MAX_SAFE_INTEGER :: int where
  "MAX_SAFE_INTEGER = 9007199254740991"

fun js_add :: "number \<Rightarrow> number \<Rightarrow> number" where
  "js_add (Num a) (Num b) = Num (a + b)"
| "js_add _ _ = NaN"

text \<open>Comparisons with \<open>NaN\<close> are false.\<close>

fun js_le :: "number \<Rightarrow> number \<Rightarrow> bool" where
  "js_le (Num a) (Num b) = (a \<le> b)"
| "js_le _ _ = False"

fun js_gt :: "number \<Rightarrow> number \<Rightarrow> bool" where
  "js_gt (Num a) (Num b) = (a > b)"
| "js_gt _ _ = False"

text \<open>\<open>Math.floor(a / b)\<close> on integers; a zero divisor gives an infinity or \<open>NaN\<close>,
  which the pages never produce (their divisors are positive constants).\<close>

fun js_floor_div :: "number \<Rightarrow> int \<Rightarrow> number" where
  "js_floor_div (Num a) b = (if b = 0 then NaN else Num (a div b))"
| "js_floor_div NaN b = NaN"

text \<open>\<open>a % b\<close>: the remainder takes the sign of the dividend.\<close>

fun js_rem :: "number \<Rightarrow> int \<Rightarrow> number" where
  "js_rem (Num a) b = (if b = 0 then NaN else Num (sgn a * (\<bar>a\<bar> mod \<bar>b\<bar>)))"
| "js_rem NaN b = NaN"

text \<open>\<open>a || b\<close> on numbers: \<open>0\<close> and \<open>NaN\<close> are falsy.\<close>

fun js_or :: "number \<Rightarrow> number \<Rightarrow> number" where
  "js_or NaN d = d"
| "js_or (Num a) d = (if a = 0 then d else Num a)"

fun js_lt :: "number \<Rightarrow> number \<Rightarrow> bool" where
  "js_lt (Num a) (Num b) = (a < b)"
| "js_lt _ _ = False"

fun js_mul :: "number \<Rightarrow> number \<Rightarrow> number" where
  "js_mul (Num a) (Num b) = Num (a * b)"
| "js_mul _ _ = NaN"

subsection \<open>Strings\<close>

text \<open>
  A JavaScript string is a sequence of UTF-16 code units, modelled as a list of
  naturals; \<open>str\<close> turns an ASCII literal into one.
\<close>

type_synonym jsstring = "nat list"

definition str :: "string \<Rightarrow> jsstring" where
  "str s = map of_char s"

text \<open>The code units that \<open>trim\<close> strips: the language's white space and line
  terminators.\<close>

definition is_whitespace :: "nat \<Rightarrow> bool" where
  "is_whitespace c =
     (c \<in> {0x09, 0x0A, 0x0B, 0x0C, 0x0D, 0x20, 0xA0, 0x1680, 0x2028, 0x2029, 0x202F,
            0x205F, 0x3000, 0xFEFF} \<or> (0x2000 \<le> c \<and> c \<le> 0x200A))"

definition trim :: "jsstring \<Rightarrow> jsstring" where
  "trim s = rev (dropWhile is_whitespace (rev (dropWhile is_whitespace s)))"

text \<open>The class \<open>\d\<close> of a regular expression: the ASCII digits.\<close>

definition is_digit :: "nat \<Rightarrow> bool" where
  "is_digit c = (48 \<le> c \<and> c \<le> 57)"

definition digits_value :: "jsstring \<Rightarrow> nat" where
  "digits_value s = foldl (\<lambda>acc c. acc * 10 + (c - 48)) 0 s"

text \<open>
  \<open>Number(s)\<close> for a string. The model covers the strings the pages convert: white
  space around a run of decimal digits (the empty run is \<open>0\<close>). Both inputs that
  \<open>addQueueItem\<close> converts admit only strings matching \<open>/^\d*$/\<close> when typed (their
  \<open>onChange\<close> handlers, lines 353-362 and 397-406). The model is \<open>Number\<close> only on
  runs of digits whose value is at most \<open>2^53 - 1\<close>: a larger value is rounded to a
  double by \<open>Number\<close> and kept exact here, and signs, fractions, exponents (such as the
  \<open>1e+21\<close> that the \<open>onBlur\<close> handlers can write back), radix prefixes and
  \<open>Infinity\<close> are numeric literals for \<open>Number\<close> and \<open>NaN\<close> here. Every statement
  that depends on a conversion assumes its input within the modelled strings.
\<close>

definition Number_string :: "jsstring \<Rightarrow> number" where
  "Number_string s =
     (let t = trim s in if list_all is_digit t then Num (int (digits_value t)) else NaN)"

subsection \<open>Numbers to strings\<close>

fun show_nat :: "nat \<Rightarrow> jsstring" where
  "show_nat n = (if n < 10 then [48 + n] else show_nat (n div 10) @ [48 + n mod 10])"

declare show_nat.simps [simp del]

definition show_int :: "int \<Rightarrow> jsstring" where
  "show_int i = (if i < 0 then 45 # show_nat (nat (- i)) else show_nat (nat i))"

text \<open>\<open>String(x)\<close> and template interpolation \<open>${x}\<close> of a number (decimal notation,
  which JavaScript uses for integers below \<open>10^21\<close>).\<close>

fun js_String :: "number \<Rightarrow> jsstring" where
  "js_String NaN = str ''NaN''"
| "js_String (Num i) = show_int i"

section \<open>HistoryPage.tsx: order expiry and countdown\<close>

text \<open>
  A \<open>Date\<close> object is its time value (\<open>getTime()\<close>): milliseconds since the epoch, or
  \<open>NaN\<close> for an Invalid Date. Every constructor clips the time value to the range of
  \<open>Date\<close> (\<open>TimeClip\<close> of the language: at most \<open>8.64 * 10^15\<close> ms either side of the
  epoch).
\<close>

datatype date = Date number

fun getTime :: "date \<Rightarrow> number" where
  "getTime (Date t) = t"

fun TimeClip :: "number \<Rightarrow> number" where
  "TimeClip NaN = NaN"
| "TimeClip (Num v) = (if \<bar>v\<bar> \<le> 8640000000000000 then Num v else NaN)"

text \<open>\<open>new Date(value)\<close> for a number.\<close>

definition new_Date_number :: "number \<Rightarrow> date" where
  "new_Date_number t = Date (TimeClip t)"

text \<open>
  \<open>new Date(s)\<close> for a string. Reading a timestamp is the host's \<open>Date.parse\<close>, which
  the page does not define: it is the parameter \<open>parse\<close>. The empty string is an
  Invalid Date on every host.
\<close>

definition new_Date_string :: "(jsstring \<Rightarrow> number) \<Rightarrow> jsstring \<Rightarrow> date" where
  "new_Date_string parse s = Date (if s = [] then NaN else TimeClip (parse s))"

text \<open>Order validity in minutes (line 28).\<close>

definition ORDER_VALIDITY_MINUTES :: int where
  "ORDER_VALIDITY_MINUTES = 15"

text \<open>
  \<open>getExpirationTime\<close> (lines 31-38). The parameter \<open>expirationTime?: string\<close> is
  \<open>None\<close> when the field is missing. The test \<open>if (expirationTime)\<close> is JavaScript
  truthiness: a missing field and the empty string both fail it.
\<close>

definition getExpirationTime ::
  "(jsstring \<Rightarrow> number) \<Rightarrow> jsstring \<Rightarrow> jsstring option \<Rightarrow> date" where
  "getExpirationTime parse purchaseTime expirationTime =
     (let fromPurchase =
        (let purchaseDate = new_Date_string parse purchaseTime
         in new_Date_number
              (js_add (getTime purchaseDate) (Num (ORDER_VALIDITY_MINUTES * 60 * 1000))))
      in case expirationTime of
           None \<Rightarrow> fromPurchase
         | Some e \<Rightarrow> if e \<noteq> [] then new_Date_string parse e else fromPurchase)"

text \<open>
  The texts of \<open>formatCountdown\<close>: the expired marker (U+5DF2 U+8FC7 U+671F,
  "expired") and the unit suffixes for hours (U+65F6), minutes (U+5206) and seconds
  (U+79D2).
\<close>

definition EXPIRED_TEXT :: jsstring where
  "EXPIRED_TEXT = [0x5DF2, 0x8FC7, 0x671F]"

definition HOUR_TEXT :: jsstring where
  "HOUR_TEXT = [0x65F6]"

definition MINUTE_TEXT :: jsstring where
  "MINUTE_TEXT = [0x5206]"

definition SECOND_TEXT :: jsstring where
  "SECOND_TEXT = [0x79D2]"

text \<open>\<open>formatCountdown\<close> (lines 41-57).\<close>

definition formatCountdown :: "number \<Rightarrow> jsstring" where
  "formatCountdown remainingMs =
     (if js_le remainingMs (Num 0) then EXPIRED_TEXT
      else
        let hours = js_floor_div remainingMs (1000 * 60 * 60);
            minutes = js_floor_div (js_rem remainingMs (1000 * 60 * 60)) (1000 * 60);
            seconds = js_floor_div (js_rem remainingMs (1000 * 60)) 1000
        in if js_gt hours (Num 0) then
             js_String hours @ HOUR_TEXT @ js_String minutes @ MINUTE_TEXT
               @ js_String seconds @ SECOND_TEXT
           else if js_gt minutes (Num 0) then
             js_String minutes @ MINUTE_TEXT @ js_String seconds @ SECOND_TEXT
           else js_String seconds @ SECOND_TEXT)"

section \<open>QueuePage.tsx: adding tasks to the queue\<close>

text \<open>
  The body of \<open>POST /queue\<close> (lines 133-138): plan code, datacenter, retry interval
  and options. It has no quantity field.
\<close>

record queue_request =
  rq_planCode :: jsstring
  rq_datacenter :: jsstring
  rq_retryInterval :: number
  rq_options :: "jsstring list"

text \<open>The calls the page makes to the API: \<open>fetchQueueItems\<close>, \<open>addQueueItem\<close>,
  \<open>removeQueueItem\<close>, \<open>toggleQueueItemStatus\<close> and \<open>clearAllQueue\<close>.\<close>

datatype api_call =
    GET_queue
  | POST_queue queue_request
  | DELETE_queue_item jsstring
  | PUT_queue_status jsstring jsstring
  | DELETE_queue_clear

text \<open>The state of the add form (the \<open>useState\<close> cells of lines 61-69).\<close>

record form =
  planCodeInput :: jsstring
  selectedDatacenters :: "jsstring list"
  retryInterval :: number
  retryIntervalInput :: jsstring
  quantity :: number
  quantityInput :: jsstring
  selectedOptions :: "jsstring list"
  optionsInput :: jsstring

datatype toast =
    Error_missing_input
  | Error_quantity
  | Info_creating number
  | Success_added nat number
  | Error_failed nat number

text \<open>
  The locals of the fan-out loop: the two counters, and the calls issued so far.
  \<open>requests\<close> lists the body of every \<open>POST /queue\<close> issued, in order; \<open>created\<close>
  lists the bodies of the calls that resolved, the tasks the server acknowledged.
\<close>

record progress =
  successCount :: nat
  errorCount :: nat
  requests :: "queue_request list"
  created :: "queue_request list"

definition no_progress :: progress where
  "no_progress = \<lparr>successCount = 0, errorCount = 0, requests = [], created = []\<rparr>"

text \<open>
  \<open>c++\<close> for a counter that starts at 0 and is only ever incremented. The counter is a
  double: up to \<open>2^53 - 1\<close> the increment is exact; at \<open>2^53\<close> the sum \<open>2^53 + 1\<close> is
  rounded back to \<open>2^53\<close>, so the counter stops there.
\<close>

definition js_increment :: "nat \<Rightarrow> nat" where
  "js_increment c = (if int c \<le> MAX_SAFE_INTEGER then c + 1 else c)"

text \<open>
  One pass through the \<open>try\<close>/\<open>catch\<close> of lines 132-143. The server and the network
  are outside the page: \<open>api k\<close> says whether the \<open>k\<close>-th call issued (counting from
  0) resolves; when it does not, \<open>await\<close> throws and the \<open>catch\<close> branch runs.
\<close>

definition post_queue :: "(nat \<Rightarrow> bool) \<Rightarrow> queue_request \<Rightarrow> progress \<Rightarrow> progress" where
  "post_queue api body p =
     (if api (length (requests p))
      then p\<lparr>successCount := js_increment (successCount p),
             requests := requests p @ [body], created := created p @ [body]\<rparr>
      else p\<lparr>errorCount := js_increment (errorCount p), requests := requests p @ [body]\<rparr>)"

text \<open>The inner loop \<open>for (let i = 0; i < finalQuantity; i++)\<close> (line 131). The loop
  variable stays below \<open>finalQuantity\<close>, so its increment is exact for every
  \<open>finalQuantity\<close> up to \<open>2^53\<close>; the model does not cover larger ones.\<close>

function unit_loop ::
  "(nat \<Rightarrow> bool) \<Rightarrow> queue_request \<Rightarrow> number \<Rightarrow> int \<Rightarrow> progress \<Rightarrow> progress" where
  "unit_loop api body finalQuantity i p =
     (if js_lt (Num i) finalQuantity
      then unit_loop api body finalQuantity (i + 1) (post_queue api body p)
      else p)"
  by pat_completeness auto
termination
proof (relation "measure (\<lambda>(api, body, finalQuantity, i, p).
                   case finalQuantity of NaN \<Rightarrow> 0 | Num q \<Rightarrow> nat (q - i))")
  show "wf (measure (\<lambda>(api :: nat \<Rightarrow> bool, body :: queue_request, finalQuantity, i, p :: progress).
                   case finalQuantity of NaN \<Rightarrow> 0 | Num q \<Rightarrow> nat (q - i)))"
    by simp
next
  fix api :: "nat \<Rightarrow> bool" and body :: queue_request and finalQuantity i and p :: progress
  assume "js_lt (Num i) finalQuantity"
  then show "((api, body, finalQuantity, i + 1, post_queue api body p),
              (api, body, finalQuantity, i, p))
             \<in> measure (\<lambda>(api, body, finalQuantity, i, p).
                   case finalQuantity of NaN \<Rightarrow> 0 | Num q \<Rightarrow> nat (q - i))"
    by (cases finalQuantity) auto
qed

declare unit_loop.simps [simp del]

text \<open>The outer loop \<open>for (const dc of selectedDatacenters)\<close> (line 130).\<close>

fun dc_loop ::
  "(nat \<Rightarrow> bool) \<Rightarrow> (jsstring \<Rightarrow> queue_request) \<Rightarrow> number \<Rightarrow> jsstring list \<Rightarrow> progress
   \<Rightarrow> progress" where
  "dc_loop api body finalQuantity [] p = p"
| "dc_loop api body finalQuantity (dc # dcs) p =
     dc_loop api body finalQuantity dcs (unit_loop api (body dc) finalQuantity 0 p)"

text \<open>
  What one run of \<open>addQueueItem\<close> does: the toasts shown, the loop's final locals, the
  API calls issued in order, and the form afterwards.
\<close>

record add_result =
  toasts :: "toast list"
  final :: progress
  calls :: "api_call list"
  form_after :: form

text \<open>The eight setters of lines 156-163.\<close>

definition reset_form :: "int \<Rightarrow> form \<Rightarrow> form" where
  "reset_form TASK_RETRY_INTERVAL f =
     f\<lparr>planCodeInput := [], selectedDatacenters := [],
       retryInterval := Num TASK_RETRY_INTERVAL,
       retryIntervalInput := js_String (Num TASK_RETRY_INTERVAL),
       quantity := Num 1, quantityInput := str ''1'',
       selectedOptions := [], optionsInput := []\<rparr>"

text \<open>
  \<open>addQueueItem\<close> (lines 109-165). \<open>TASK_RETRY_INTERVAL\<close> is imported from
  \<open>@/config/constants\<close>, which is not among the sources: it is a parameter, an
  integer constant. \<open>fetchQueueItems(true)\<close> issues \<open>GET /queue\<close> (line 81).
\<close>

definition addQueueItem :: "int \<Rightarrow> (nat \<Rightarrow> bool) \<Rightarrow> form \<Rightarrow> add_result" where
  "addQueueItem TASK_RETRY_INTERVAL api f =
     (if trim (planCodeInput f) = [] \<or> selectedDatacenters f = [] then
        \<lparr>toasts = [Error_missing_input], final = no_progress, calls = [], form_after = f\<rparr>
      else
        let finalQuantity = js_or (Number_string (quantityInput f)) (Num 1) in
        if js_lt finalQuantity (Num 1) then
          \<lparr>toasts = [Error_quantity], final = no_progress, calls = [], form_after = f\<rparr>
        else
          let finalRetryInterval =
                js_or (Number_string (retryIntervalInput f)) (Num TASK_RETRY_INTERVAL);
              totalTasks = js_mul (Num (int (length (selectedDatacenters f)))) finalQuantity;
              body = (\<lambda>dc. \<lparr>rq_planCode = trim (planCodeInput f), rq_datacenter = dc,
                             rq_retryInterval = finalRetryInterval,
                             rq_options = selectedOptions f\<rparr>);
              p = dc_loop api body finalQuantity (selectedDatacenters f) no_progress;
              reset = (successCount p > 0 \<or> errorCount p = 0)
          in \<lparr>toasts = [Info_creating totalTasks]
                 @ (if successCount p > 0 then [Success_added (successCount p) totalTasks] else [])
                 @ (if errorCount p > 0 then [Error_failed (errorCount p) totalTasks] else []),
              final = p,
              calls = map POST_queue (requests p) @ (if reset then [GET_queue] else []),
              form_after = (if reset then reset_form TASK_RETRY_INTERVAL f else f)\<rparr>)"

section \<open>The command parser\<close>

text \<open>
  Modelled from the spec: the CommandParser of section 4.1. The page documents the
  message format \<open>plancode [datacenter] [quantity] [options]\<close> and its five supported
  shapes (QueuePage.tsx, lines 557-615); the parser itself runs on the server and is
  missing from the sources, so every definition of this section follows the
  specification's words.
\<close>

datatype parse_error = MalformedCommand

text \<open>A parsed command. \<open>None\<close> is the wildcard: "all available" datacenters, or "all
  available configurations".\<close>

record raw_intent =
  ri_planCode :: jsstring
  ri_datacenter :: "jsstring option"
  ri_quantity :: nat
  ri_options :: "jsstring list option"

text \<open>Splitting at separators; empty pieces are dropped. \<open>cur\<close> is the piece being
  read.\<close>

fun split_at :: "(nat \<Rightarrow> bool) \<Rightarrow> jsstring \<Rightarrow> jsstring \<Rightarrow> jsstring list" where
  "split_at sep cur [] = (if cur = [] then [] else [cur])"
| "split_at sep cur (c # cs) =
     (if sep c then (if cur = [] then [] else [cur]) @ split_at sep [] cs
      else split_at sep (cur @ [c]) cs)"

definition tokens :: "jsstring \<Rightarrow> jsstring list" where
  "tokens text = split_at is_whitespace [] text"

definition split_commas :: "jsstring \<Rightarrow> jsstring list" where
  "split_commas t = split_at (\<lambda>c. c = 44) [] t"

definition lower :: "jsstring \<Rightarrow> jsstring" where
  "lower s = map (\<lambda>c. if 65 \<le> c \<and> c \<le> 90 then c + 32 else c) s"

definition positive_integer :: "jsstring \<Rightarrow> bool" where
  "positive_integer t \<longleftrightarrow> t \<noteq> [] \<and> list_all is_digit t \<and> 0 < digits_value t"

text \<open>
  Modelled from the spec: \<open>Parse\<close> of the CommandParser (section 4.1), whose code is
  missing from the sources. Tokens are separated by white space; plan and datacenter
  codes are read case-insensitively (lower case). The token after the plan code is a
  datacenter if it is a known datacenter code; the next token is the quantity if it is a
  positive integer; whatever follows the datacenter and the quantity, where there are
  any, is the comma-separated options list. A missing
  datacenter or options list is the wildcard, a missing quantity is 1, and a text with no
  plan code is \<open>MalformedCommand\<close>. The known datacenter codes (\<open>OVH_DATACENTERS\<close> of
  \<open>@/config/ovhConstants\<close>) are not among the sources: they are the parameter
  \<open>known\<close>, in lower case.
\<close>

definition Parse :: "jsstring list \<Rightarrow> jsstring \<Rightarrow> parse_error + raw_intent list" where
  "Parse known text =
     (case tokens text of
        [] \<Rightarrow> Inl MalformedCommand
      | plan # rest \<Rightarrow>
          let (dc, rest1) =
                (case rest of
                   [] \<Rightarrow> (None, [])
                 | t # ts \<Rightarrow> if lower t \<in> set known then (Some (lower t), ts) else (None, rest));
              (qty, rest2) =
                (case rest1 of
                   [] \<Rightarrow> (1, [])
                 | t # ts \<Rightarrow> if positive_integer t then (digits_value t, ts) else (1, rest1));
              opts = (if rest2 = [] then None else Some (concat (map split_commas rest2)))
          in Inr [\<lparr>ri_planCode = lower plan, ri_datacenter = dc, ri_quantity = qty,
                   ri_options = opts\<rparr>])"

section \<open>The task queue\<close>

text \<open>
  The queue page declares the task (\<open>QueueItem\<close>, QueuePage.tsx lines 20-30) and calls
  the server for every change. The store, the catalog filter and the scheduler run on
  the server and are missing from the sources: apart from the two types below, which
  are the page's, this section is modelled from the specification.
\<close>

datatype task_status = Pending | Running | Paused | Completed | Failed

record queue_item =
  qi_id :: jsstring
  qi_planCode :: jsstring
  qi_datacenter :: jsstring
  qi_options :: "jsstring list"
  qi_status :: task_status
  qi_createdAt :: jsstring
  qi_updatedAt :: jsstring
  qi_retryInterval :: number
  qi_retryCount :: nat

subsection \<open>The catalog filter\<close>

text \<open>
  Modelled from the spec: the PurchaseIntent of section 3 (plan, datacenter, option
  codes, requested quantity), and the catalog that \<open>GetCatalog\<close> returns for a plan
  (section 6, "datacenters x options availability"): the configurations in stock, each
  a datacenter with an option set, and the plan's default configuration.
\<close>

record purchase_intent =
  pi_planCode :: jsstring
  pi_datacenter :: jsstring
  pi_options :: "jsstring list"
  pi_quantity :: nat

record catalog =
  in_stock :: "(jsstring \<times> jsstring list) list"
  default_options :: "jsstring list"

datatype resolution_error = NoAvailableTarget

text \<open>
  Modelled from the spec: the candidates of \<open>Resolve\<close> (section 4.2). The candidate
  datacenters are the explicit one, or all in-stock datacenters for a wildcard,
  intersected with the catalog's availability. The candidate option sets are all
  in-stock option combinations for a wildcard; an explicit option set is itself the
  candidate when it is an available configuration, and the plan's default
  configuration otherwise.
\<close>

definition candidate_datacenters :: "catalog \<Rightarrow> raw_intent \<Rightarrow> jsstring list" where
  "candidate_datacenters cat i =
     (let stocked = remdups (map fst (in_stock cat))
      in case ri_datacenter i of
           None \<Rightarrow> stocked
         | Some d \<Rightarrow> filter (\<lambda>x. x = d) stocked)"

definition candidate_option_sets :: "catalog \<Rightarrow> raw_intent \<Rightarrow> jsstring list list" where
  "candidate_option_sets cat i =
     (let configurations = remdups (map snd (in_stock cat))
      in case ri_options i of
           None \<Rightarrow> configurations
         | Some opts \<Rightarrow> if opts \<in> set configurations then [opts] else [default_options cat])"

text \<open>
  Modelled from the spec: \<open>Resolve\<close> of the CatalogFilter (section 4.2). The result is
  candidate datacenters x candidate option sets x quantity, each an independent
  PurchaseIntent; when no datacenter qualifies it is empty and \<open>NoAvailableTarget\<close>
  is reported.
\<close>

definition Resolve ::
  "catalog \<Rightarrow> raw_intent \<Rightarrow> purchase_intent list \<times> resolution_error option" where
  "Resolve cat i =
     (let dcs = candidate_datacenters cat i;
          option_sets = candidate_option_sets cat i
      in if dcs = [] then ([], Some NoAvailableTarget)
         else (concat (map (\<lambda>d. concat (map (\<lambda>opts.
                  replicate (ri_quantity i)
                    \<lparr>pi_planCode = ri_planCode i, pi_datacenter = d, pi_options = opts,
                      pi_quantity = ri_quantity i\<rparr>) option_sets)) dcs),
               None))"

subsection \<open>The task store\<close>

text \<open>
  Modelled from the spec: the TaskStore of section 4.3, with what the scheduler of
  sections 4.4 and 5 keeps beside it. \<open>tasks\<close> holds the tasks in creation order,
  \<open>next_id\<close> numbers the tasks created so far, and \<open>in_flight\<close> lists the task ids of
  the PurchaseExecutor invocations that have been started and have not returned, one
  entry per invocation.
\<close>

record task_store =
  tasks :: "queue_item list"
  next_id :: nat
  in_flight :: "jsstring list"

definition empty_store :: task_store where
  "empty_store = \<lparr>tasks = [], next_id = 0, in_flight = []\<rparr>"

text \<open>Modelled from the spec: \<open>Add(PurchaseIntent, retryInterval)\<close> creates one task in
  status pending, under an id of its own (section 4.3).\<close>

definition Add :: "jsstring \<Rightarrow> number \<Rightarrow> task_store \<Rightarrow> purchase_intent \<Rightarrow> task_store" where
  "Add now interval st p =
     st\<lparr>tasks := tasks st @
            [\<lparr>qi_id = show_nat (next_id st), qi_planCode = pi_planCode p,
              qi_datacenter = pi_datacenter p, qi_options = pi_options p,
              qi_status = Pending, qi_createdAt = now, qi_updatedAt = now,
              qi_retryInterval = interval, qi_retryCount = 0\<rparr>],
        next_id := next_id st + 1\<rparr>"

definition lookup :: "jsstring \<Rightarrow> task_store \<Rightarrow> queue_item option" where
  "lookup i st = find (\<lambda>t. qi_id t = i) (tasks st)"

definition update :: "jsstring \<Rightarrow> (queue_item \<Rightarrow> queue_item) \<Rightarrow> task_store \<Rightarrow> task_store" where
  "update i f st = st\<lparr>tasks := map (\<lambda>t. if qi_id t = i then f t else t) (tasks st)\<rparr>"

definition has_status :: "jsstring \<Rightarrow> task_status \<Rightarrow> task_store \<Rightarrow> bool" where
  "has_status i s st = (case lookup i st of None \<Rightarrow> False | Some t \<Rightarrow> qi_status t = s)"

text \<open>Modelled from the spec: \<open>Remove(id)\<close> and \<open>ClearAll()\<close> (section 4.3). Neither waits
  for an attempt in flight (section 5).\<close>

definition Remove :: "jsstring \<Rightarrow> task_store \<Rightarrow> task_store" where
  "Remove i st = st\<lparr>tasks := filter (\<lambda>t. qi_id t \<noteq> i) (tasks st)\<rparr>"

definition ClearAll :: "task_store \<Rightarrow> task_store" where
  "ClearAll st = st\<lparr>tasks := []\<rparr>"

subsection \<open>The scheduler\<close>

text \<open>
  Modelled from the spec: the claim of section 4.4, one atomic step on the store
  (section 5: all claims and status transitions are serialised). A worker claims a
  task by taking it from pending (its retry-wait sub-state included) to running, and
  then starts the PurchaseExecutor for it; when the task is not pending the claim has
  failed and the worker skips the task silently. Which pending tasks are due at a given
  time is left out: the step allows the claim of any pending task, so it allows every
  claim of a due one.
\<close>

definition claim :: "jsstring \<Rightarrow> task_store \<Rightarrow> task_store" where
  "claim i st =
     (if has_status i Pending st
      then (update i (\<lambda>t. t\<lparr>qi_status := Running\<rparr>) st)\<lparr>in_flight := i # in_flight st\<rparr>
      else st)"

datatype outcome = Success | Transient_failure | Permanent_failure

text \<open>Modelled from the spec: what the scheduler records when the PurchaseExecutor
  returns (section 4.4): success completes the task, a transient failure counts a
  retry and returns the task to pending, a permanent failure fails it.\<close>

definition record_outcome :: "jsstring \<Rightarrow> outcome \<Rightarrow> queue_item \<Rightarrow> queue_item" where
  "record_outcome now result t =
     (case result of
        Success \<Rightarrow> t\<lparr>qi_status := Completed, qi_updatedAt := now\<rparr>
      | Transient_failure \<Rightarrow>
          t\<lparr>qi_status := Pending, qi_retryCount := qi_retryCount t + 1, qi_updatedAt := now\<rparr>
      | Permanent_failure \<Rightarrow> t\<lparr>qi_status := Failed, qi_updatedAt := now\<rparr>)"

text \<open>
  Modelled from the spec: the return of one invocation for task \<open>i\<close> (section 5). The
  invocation is no longer in flight; its outcome is applied only if the task still
  exists and is still running, and is discarded otherwise. With no invocation for \<open>i\<close> in
  flight there is nothing to return.
\<close>

definition returned :: "jsstring \<Rightarrow> jsstring \<Rightarrow> outcome \<Rightarrow> task_store \<Rightarrow> task_store" where
  "returned now i result st =
     (if i \<notin> set (in_flight st) then st
      else
        let st' = st\<lparr>in_flight := remove1 i (in_flight st)\<rparr>
        in if has_status i Running st' then update i (record_outcome now result) st' else st')"

text \<open>
  Modelled from the spec: pausing and resuming (sections 4.3, 4.4 and 5). Pausing takes
  a running task to paused and does not abort the call in flight. Resuming takes a
  paused task to "pending with immediate eligibility" (section 4.4), so that the next
  scheduling pass can claim it. Any other request is an illegal transition and a no-op.
\<close>

definition pause :: "jsstring \<Rightarrow> task_store \<Rightarrow> task_store" where
  "pause i st =
     (if has_status i Running st then update i (\<lambda>t. t\<lparr>qi_status := Paused\<rparr>) st else st)"

definition resume :: "jsstring \<Rightarrow> task_store \<Rightarrow> task_store" where
  "resume i st =
     (if has_status i Paused st then update i (\<lambda>t. t\<lparr>qi_status := Pending\<rparr>) st else st)"

text \<open>
  Workers and users act on the store one step at a time, in any order: an interleaving
  is a list of events. Two workers racing on the same due-task list are two \<open>Claim\<close>
  events for the same id.
\<close>

datatype event =
    Claim jsstring
  | Returned jsstring jsstring outcome
  | Pause jsstring
  | Resume jsstring
  | Removed jsstring
  | Cleared

fun step :: "task_store \<Rightarrow> event \<Rightarrow> task_store" where
  "step st (Claim i) = claim i st"
| "step st (Returned now i result) = returned now i result st"
| "step st (Pause i) = pause i st"
| "step st (Resume i) = resume i st"
| "step st (Removed i) = Remove i st"
| "step st Cleared = ClearAll st"




section \<open>The availability monitor\<close>

text \<open>
  The monitor page declares the data (\<open>Subscription\<close>, lines 10-19, and
  \<open>HistoryEntry\<close>, lines 28-39) and leaves the ordering to the server: the comment of
  lines 83-85 says that only the server-side monitor places automatic orders, when it
  detects a change of status, and that the page places none. The three records below
  are the page's (\<open>autoOrder?\<close> is optional there; a missing flag counts as false).
\<close>

record config_descriptor =
  memory :: jsstring
  storage :: jsstring
  display :: jsstring

record history_entry =
  timestamp :: jsstring
  datacenter :: jsstring
  status :: jsstring
  changeType :: jsstring
  oldStatus :: "jsstring option"
  config :: "config_descriptor option"

record subscription =
  planCode :: jsstring
  serverName :: "jsstring option"
  datacenters :: "jsstring list"
  notifyAvailable :: bool
  notifyUnavailable :: bool
  autoOrder :: bool
  lastStatus :: "jsstring \<rightharpoonup> jsstring"
  createdAt :: jsstring

text \<open>
  Modelled from the spec: the MonitorEngine of sections 4.6 and 7, whose code is missing
  from the sources; every definition from here to the end of this section follows the
  specification's words.
\<close>

definition available :: jsstring where
  "available = str ''available''"

definition unavailable :: jsstring where
  "unavailable = str ''unavailable''"

text \<open>What a polling tick fetched for the plan of a subscription: the status of each
  datacenter, in the order reported, or nothing when the fetch failed.\<close>

datatype fetch = Fetch_failed | Availability "(jsstring \<times> jsstring) list"

text \<open>What the engine sends out: a notification, or an automatic order handed to the
  CatalogFilter and \<open>TaskStore.Add\<close>.\<close>

datatype effect = Notify history_entry | Auto_order raw_intent

text \<open>The engine's state for one subscription: the subscription, its history log, and
  what has been sent out so far, in order.\<close>

record engine =
  sub :: subscription
  history_log :: "history_entry list"
  sent :: "effect list"

definition start :: "subscription \<Rightarrow> engine" where
  "start s = \<lparr>sub = s, history_log = [], sent = []\<rparr>"

text \<open>The watch set; the empty set watches every datacenter.\<close>

definition watched :: "subscription \<Rightarrow> jsstring \<Rightarrow> bool" where
  "watched s dc \<longleftrightarrow> datacenters s = [] \<or> dc \<in> set (datacenters s)"

text \<open>The history log keeps the newest \<open>cap\<close> entries.\<close>

definition record_event :: "nat \<Rightarrow> history_entry \<Rightarrow> history_entry list \<Rightarrow> history_entry list" where
  "record_event cap ev entries =
     (let entries' = entries @ [ev] in drop (length entries' - cap) entries')"

text \<open>
  Modelled from the spec: \<open>observe\<close> handles one datacenter of one tick (section 4.6).
  The new status is compared with the last known one (none: unknown, so any status is a
  change); on a change the event is logged, the notifications the flags ask for are
  sent, and, when the new status is "available" and auto-order is set, one intent for
  (plan, this datacenter, quantity 1, wildcard options) is handed on; the last known
  status is updated whether or not it changed.
\<close>

definition auto_intent :: "subscription \<Rightarrow> jsstring \<Rightarrow> raw_intent" where
  "auto_intent s dc =
     \<lparr>ri_planCode = planCode s, ri_datacenter = Some dc, ri_quantity = 1, ri_options = None\<rparr>"

definition observe :: "nat \<Rightarrow> jsstring \<Rightarrow> engine \<Rightarrow> jsstring \<times> jsstring \<Rightarrow> engine" where
  "observe cap now e obs =
     (let s = sub e;
          (dc, new) = obs;
          old = lastStatus s dc;
          changed = (old \<noteq> Some new);
          ev = \<lparr>timestamp = now, datacenter = dc, status = new,
                changeType = (if new = available then available else unavailable),
                oldStatus = old, config = None\<rparr>
      in \<lparr>sub = s\<lparr>lastStatus := (lastStatus s)(dc \<mapsto> new)\<rparr>,
          history_log = (if changed then record_event cap ev (history_log e)
                         else history_log e),
          sent = sent e
            @ (if changed \<and> new = available \<and> notifyAvailable s then [Notify ev] else [])
            @ (if changed \<and> new = unavailable \<and> notifyUnavailable s then [Notify ev] else [])
            @ (if changed \<and> new = available \<and> autoOrder s then [Auto_order (auto_intent s dc)]
               else [])\<rparr>)"

text \<open>
  Modelled from the spec: one polling tick for a subscription, at time \<open>fst poll\<close>
  (sections 4.6 and 7). A failed fetch changes nothing; otherwise each watched
  datacenter reported is observed in turn.
\<close>

definition tick :: "nat \<Rightarrow> engine \<Rightarrow> jsstring \<times> fetch \<Rightarrow> engine" where
  "tick cap e poll =
     (case snd poll of
        Fetch_failed \<Rightarrow> e
      | Availability report \<Rightarrow>
          foldl (observe cap (fst poll)) e
            (filter (\<lambda>obs. watched (sub e) (fst obs)) report))"

text \<open>The engine over a sequence of ticks, each with its time and what it fetched.\<close>

definition run_monitor :: "nat \<Rightarrow> subscription \<Rightarrow> (jsstring \<times> fetch) list \<Rightarrow> engine" where
  "run_monitor cap s polls = foldl (tick cap) (start s) polls"

text \<open>All automatic orders among the effects, in order, and those of them that are
  for datacenter \<open>dc\<close>.\<close>

definition all_auto_orders :: "effect list \<Rightarrow> raw_intent list" where
  "all_auto_orders out =
     concat (map (\<lambda>e. case e of Auto_order i \<Rightarrow> [i] | Notify ev \<Rightarrow> []) out)"

definition auto_orders :: "jsstring \<Rightarrow> effect list \<Rightarrow> raw_intent list" where
  "auto_orders dc out = filter (\<lambda>i. ri_datacenter i = Some dc) (all_auto_orders out)"

text \<open>
  Modelled from the spec: the path an automatic order takes after the engine has handed
  it on (section 4.6: CatalogFilter, then \<open>TaskStore.Add\<close>). The intent is resolved
  against the catalog and every PurchaseIntent that results becomes a task. The spec
  does not say which retry interval these tasks get: it is the parameter \<open>interval\<close>.
\<close>

definition enqueue ::
  "catalog \<Rightarrow> jsstring \<Rightarrow> number \<Rightarrow> task_store \<Rightarrow> raw_intent \<Rightarrow> task_store" where
  "enqueue cat now interval st i = foldl (Add now interval) st (fst (Resolve cat i))"

definition enqueue_auto_orders ::
  "catalog \<Rightarrow> jsstring \<Rightarrow> number \<Rightarrow> task_store \<Rightarrow> effect list \<Rightarrow> task_store" where
  "enqueue_auto_orders cat now interval st out =
     foldl (enqueue cat now interval) st (all_auto_orders out)"

text \<open>The tasks of a store that are for datacenter \<open>dc\<close>; and the number of tasks that
  one automatic order for \<open>dc\<close> resolves to: one per in-stock option combination when
  \<open>dc\<close> is in stock, none otherwise.\<close>

definition tasks_at :: "jsstring \<Rightarrow> task_store \<Rightarrow> queue_item list" where
  "tasks_at dc st = filter (\<lambda>t. qi_datacenter t = dc) (tasks st)"

definition tasks_per_order :: "catalog \<Rightarrow> jsstring \<Rightarrow> nat" where
  "tasks_per_order cat dc =
     (if dc \<in> set (map fst (in_stock cat)) then length (remdups (map snd (in_stock cat)))
      else 0)"

text \<open>The watched datacenters that the polls report, each once.\<close>

definition seen_datacenters :: "subscription \<Rightarrow> (jsstring \<times> fetch) list \<Rightarrow> jsstring list" where
  "seen_datacenters s polls =
     remdups (filter (watched s)
       (concat (map (\<lambda>poll. case snd poll of
                               Fetch_failed \<Rightarrow> []
                             | Availability report \<Rightarrow> map fst report) polls)))"

text \<open>
  Every automatic order handed on is the intent built for a watched datacenter of the
  subscription.
\<close>

definition well_formed :: "subscription \<Rightarrow> raw_intent list \<Rightarrow> bool" where
  "well_formed s os \<longleftrightarrow> (\<forall>i \<in> set os. \<exists>d. watched s d \<and> i = auto_intent s d)"

text \<open>
  The statement to compare the engine with, in the words of the claim: the statuses
  observed for one datacenter, in order, and the number of transitions into
  "available" among them, starting from the last known status.
\<close>

fun reported :: "jsstring \<Rightarrow> fetch \<Rightarrow> jsstring list" where
  "reported dc Fetch_failed = []"
| "reported dc (Availability report) = map snd (filter (\<lambda>obs. fst obs = dc) report)"

definition observations :: "jsstring \<Rightarrow> (jsstring \<times> fetch) list \<Rightarrow> jsstring list" where
  "observations dc polls = concat (map (\<lambda>poll. reported dc (snd poll)) polls)"

fun transitions_into_available :: "jsstring option \<Rightarrow> jsstring list \<Rightarrow> nat" where
  "transitions_into_available prev [] = 0"
| "transitions_into_available prev (s # ss) =
     (if s = available \<and> prev \<noteq> Some available then 1 else 0)
     + transitions_into_available (Some s) ss"

text \<open>The loop invariant: both counters together count the calls issued, the success
  counter counts the acknowledged ones, and the acknowledged ones are the calls the
  server accepted, each still there.\<close>

definition counted :: "(nat \<Rightarrow> bool) \<Rightarrow> progress \<Rightarrow> bool" where
  "counted api p \<longleftrightarrow>
     successCount p + errorCount p = length (requests p) \<and>
     successCount p = length (created p) \<and>
     created p = nths (requests p) {k. api k}"

section \<open>Concrete inputs\<close>

text \<open>A filled-in add form: plan \<open>24sk202\<close> (with blanks around it), two datacenters,
  quantity 2, retry interval 45, one option.\<close>

definition form0 :: form where
  "form0 = \<lparr>planCodeInput = str '' 24sk202 '',
            selectedDatacenters = [str ''gra'', str ''rbx''],
            retryInterval = Num 30, retryIntervalInput = str ''45'',
            quantity = Num 2, quantityInput = str ''2'',
            selectedOptions = [str ''ram-64g''], optionsInput = str ''ram-64g''\<rparr>"

text \<open>A server that refuses the second call (call 1) and accepts every other one.\<close>

definition api0 :: "nat \<Rightarrow> bool" where
  "api0 k = (k \<noteq> 1)"

text \<open>A \<open>Date.parse\<close> that reads two ISO timestamps, twenty minutes apart.\<close>

definition parse0 :: "jsstring \<Rightarrow> number" where
  "parse0 s = (if s = str ''2024-01-01T00:00:00.000Z'' then Num 1704067200000
               else if s = str ''2024-01-01T00:20:00.000Z'' then Num 1704068400000
               else NaN)"

definition known0 :: "jsstring list" where
  "known0 = [str ''gra'', str ''rbx'', str ''sbg'', str ''bhs'']"

text \<open>A subscription with auto-order set, watching every datacenter, with no status
  known yet; and five ticks for datacenter \<open>gra\<close>: available, available, unavailable, a
  failed fetch, available.\<close>

definition sub0 :: subscription where
  "sub0 = \<lparr>planCode = str ''24sk202'', serverName = None, datacenters = [],
           notifyAvailable = True, notifyUnavailable = False, autoOrder = True,
           lastStatus = Map.empty, createdAt = str ''2024-01-01''\<rparr>"

definition polls0 :: "(jsstring \<times> fetch) list" where
  "polls0 = [(str ''t1'', Availability [(str ''gra'', available)]),
             (str ''t2'', Availability [(str ''gra'', available)]),
             (str ''t3'', Availability [(str ''gra'', unavailable)]),
             (str ''t4'', Fetch_failed),
             (str ''t5'', Availability [(str ''gra'', available)])]"


definition catalog0 :: catalog where
  "catalog0 = \<lparr>in_stock = [(str ''gra'', [str ''ram-64g'']), (str ''gra'', [str ''ram-128g''])],
               default_options = []\<rparr>"

section \<open>Properties of the add form\<close>

lemma counted_no_progress: "counted api no_progress"
  by (simp add: counted_def no_progress_def)

lemma counted_post_queue:
  "counted api p \<Longrightarrow> int (length (requests p)) \<le> MAX_SAFE_INTEGER \<Longrightarrow>
   counted api (post_queue api body p)"
  by (auto simp: counted_def post_queue_def js_increment_def nths_append)

lemma requests_post_queue: "requests (post_queue api body p) = requests p @ [body]"
  by (simp add: post_queue_def)

lemma requests_unit_loop:
  "requests (unit_loop api body (Num q) i p) = requests p @ replicate (nat (q - i)) body"
proof (induction api body "Num q" i p rule: unit_loop.induct)
  case (1 api body i p)
  show ?case
  proof (cases "i < q")
    case True
    then have "nat (q - i) = Suc (nat (q - (i + 1)))" by simp
    with True 1 show ?thesis
      by (subst unit_loop.simps) (simp add: requests_post_queue replicate_app_Cons_same)
  next
    case False
    then show ?thesis by (subst unit_loop.simps) simp
  qed
qed

text \<open>The counters stay exact as long as the calls issued by the end of the loop are
  at most \<open>2^53\<close>.\<close>

lemma counted_unit_loop:
  assumes "int B \<le> MAX_SAFE_INTEGER + 1"
  shows "counted api p \<Longrightarrow> length (requests p) + nat (q - i) \<le> B \<Longrightarrow>
         counted api (unit_loop api body (Num q) i p)"
proof (induction api body "Num q" i p rule: unit_loop.induct)
  case (1 api body i p)
  show ?case
  proof (cases "i < q")
    case True
    then have step: "nat (q - i) = Suc (nat (q - (i + 1)))" by simp
    with "1.prems"(2) have "length (requests p) < B" by linarith
    with assms have room: "int (length (requests p)) \<le> MAX_SAFE_INTEGER" by linarith
    have c: "counted api (post_queue api body p)"
      using "1.prems"(1) room by (rule counted_post_queue)
    have "length (requests (post_queue api body p)) + nat (q - (i + 1)) \<le> B"
      using "1.prems"(2) step by (simp add: requests_post_queue)
    with True c "1.hyps" show ?thesis
      by (subst unit_loop.simps) simp
  next
    case False
    with "1.prems"(1) show ?thesis by (subst unit_loop.simps) simp
  qed
qed

lemma counted_dc_loop:
  assumes "int B \<le> MAX_SAFE_INTEGER + 1"
  shows "counted api p \<Longrightarrow> length (requests p) + length dcs * nat q \<le> B \<Longrightarrow>
         counted api (dc_loop api body (Num q) dcs p)"
proof (induction dcs arbitrary: p)
  case Nil
  then show ?case by simp
next
  case (Cons dc dcs)
  let ?p = "unit_loop api (body dc) (Num q) 0 p"
  have len: "length (requests ?p) = length (requests p) + nat q"
    by (simp add: requests_unit_loop)
  have "length (requests p) + nat (q - 0) \<le> B"
    using Cons.prems(2) by simp
  with assms Cons.prems(1) have c: "counted api ?p" by (rule counted_unit_loop)
  have "length (requests ?p) + length dcs * nat q \<le> B"
    using Cons.prems(2) by (simp add: len)
  with c have "counted api (dc_loop api body (Num q) dcs ?p)" by (rule Cons.IH)
  then show ?case by simp
qed

lemma requests_dc_loop:
  "requests (dc_loop api body (Num q) dcs p) =
     requests p @ concat (map (\<lambda>dc. replicate (nat q) (body dc)) dcs)"
  by (induction dcs arbitrary: p) (simp_all add: requests_unit_loop)

lemma length_concat_replicate:
  "length (concat (map (\<lambda>x. replicate n (g x)) xs)) = length xs * n"
  by (induction xs) simp_all

text \<open>A string of digits has no white space to trim, and \<open>Number\<close> reads its value.\<close>

lemma dropWhile_whitespace_digits:
  "list_all is_digit s \<Longrightarrow> dropWhile is_whitespace s = s"
  by (cases s) (auto simp: is_digit_def is_whitespace_def)

lemma trim_digits: "list_all is_digit s \<Longrightarrow> trim s = s"
proof -
  assume d: "list_all is_digit s"
  then have "list_all is_digit (rev s)" by (simp add: list_all_iff)
  then have "dropWhile is_whitespace (rev s) = rev s" by (rule dropWhile_whitespace_digits)
  with d show ?thesis by (simp add: trim_def dropWhile_whitespace_digits)
qed

lemma Number_string_digits:
  "list_all is_digit s \<Longrightarrow> Number_string s = Num (int (digits_value s))"
  by (simp add: Number_string_def trim_digits)

lemma finalQuantity_digits:
  "list_all is_digit s \<Longrightarrow> 1 \<le> digits_value s \<Longrightarrow>
     js_or (Number_string s) (Num 1) = Num (int (digits_value s))"
  by (simp add: Number_string_digits)

text \<open>An empty or zero quantity input means one task per datacenter.\<close>

lemma finalQuantity_default:
  "list_all is_digit s \<Longrightarrow> digits_value s = 0 \<Longrightarrow> js_or (Number_string s) (Num 1) = Num 1"
  by (simp add: Number_string_digits)

lemma addQueueItem_final:
  assumes "trim (planCodeInput f) \<noteq> []" and "selectedDatacenters f \<noteq> []"
      and "list_all is_digit (quantityInput f)" and "1 \<le> digits_value (quantityInput f)"
  shows "final (addQueueItem T api f) =
           dc_loop api
             (\<lambda>dc. \<lparr>rq_planCode = trim (planCodeInput f), rq_datacenter = dc,
                    rq_retryInterval = js_or (Number_string (retryIntervalInput f)) (Num T),
                    rq_options = selectedOptions f\<rparr>)
             (Num (int (digits_value (quantityInput f)))) (selectedDatacenters f) no_progress"
  using assms by (simp add: addQueueItem_def finalQuantity_digits Let_def)

lemma addQueueItem_calls:
  assumes "trim (planCodeInput f) \<noteq> []" and "selectedDatacenters f \<noteq> []"
      and "list_all is_digit (quantityInput f)" and "1 \<le> digits_value (quantityInput f)"
  shows "calls (addQueueItem T api f) =
           map POST_queue (requests (final (addQueueItem T api f)))
           @ (if successCount (final (addQueueItem T api f)) > 0
                 \<or> errorCount (final (addQueueItem T api f)) = 0
              then [GET_queue] else [])"
    and "form_after (addQueueItem T api f) =
           (if successCount (final (addQueueItem T api f)) > 0
                 \<or> errorCount (final (addQueueItem T api f)) = 0
            then reset_form T f else f)"
  using assms by (simp_all add: addQueueItem_def finalQuantity_digits Let_def)

text \<open>Without a plan code or without a datacenter nothing is sent and the form stays.\<close>

lemma addQueueItem_missing_input:
  "trim (planCodeInput f) = [] \<or> selectedDatacenters f = [] \<Longrightarrow>
     calls (addQueueItem T api f) = [] \<and> form_after (addQueueItem T api f) = f"
  by (auto simp: addQueueItem_def)

lemma form0_valid:
  "trim (planCodeInput form0) \<noteq> []"
  "selectedDatacenters form0 \<noteq> []"
  "list_all is_digit (quantityInput form0)"
  "digits_value (quantityInput form0) = 2"
  "selectedDatacenters form0 = [str ''gra'', str ''rbx'']"
  "list_all is_digit (retryIntervalInput form0)"
  "digits_value (retryIntervalInput form0) = 45"
  by (simp_all add: form0_def str_def trim_def is_whitespace_def is_digit_def digits_value_def)

text \<open>
  Claim C1. For every requested quantity \<open>N \<ge> 1\<close> and every non-empty selection \<open>D\<close> of
  datacenters, the fan-out of \<open>addQueueItem\<close> issues exactly \<open>|D| * N\<close> task creations:
  for each datacenter in turn, \<open>N\<close> calls \<open>POST /queue\<close> with the same body, which names
  the plan, that datacenter, the retry interval and the options and carries no
  quantity. The form must hold a plan code (else nothing is sent); the quantity and
  the retry interval inputs are strings of digits, as their \<open>onChange\<close> handlers admit,
  and their values and the default retry interval are within the integers a JavaScript
  number counts exactly.
\<close>

theorem addQueueItem_fan_out:
  assumes "trim (planCodeInput f) \<noteq> []" and "selectedDatacenters f \<noteq> []"
      and "list_all is_digit (quantityInput f)" and "1 \<le> digits_value (quantityInput f)"
      and "int (digits_value (quantityInput f)) \<le> MAX_SAFE_INTEGER"
      and "list_all is_digit (retryIntervalInput f)"
      and "int (digits_value (retryIntervalInput f)) \<le> MAX_SAFE_INTEGER"
      and "\<bar>T\<bar> \<le> MAX_SAFE_INTEGER"
  shows "requests (final (addQueueItem T api f)) =
           concat (map (\<lambda>dc. replicate (digits_value (quantityInput f))
                     \<lparr>rq_planCode = trim (planCodeInput f), rq_datacenter = dc,
                      rq_retryInterval = js_or (Number_string (retryIntervalInput f)) (Num T),
                      rq_options = selectedOptions f\<rparr>)
                   (selectedDatacenters f))
       \<and> length (requests (final (addQueueItem T api f))) =
           length (selectedDatacenters f) * digits_value (quantityInput f)
       \<and> filter (\<lambda>c. c \<noteq> GET_queue) (calls (addQueueItem T api f)) =
           map POST_queue (requests (final (addQueueItem T api f)))
       \<and> (distinct (selectedDatacenters f) \<longrightarrow>
            length (requests (final (addQueueItem T api f))) =
              card (set (selectedDatacenters f)) * digits_value (quantityInput f))"
proof -
  let ?r = "addQueueItem T api f"
  have req: "requests (final ?r) =
           concat (map (\<lambda>dc. replicate (digits_value (quantityInput f))
                     \<lparr>rq_planCode = trim (planCodeInput f), rq_datacenter = dc,
                      rq_retryInterval = js_or (Number_string (retryIntervalInput f)) (Num T),
                      rq_options = selectedOptions f\<rparr>)
                   (selectedDatacenters f))"
    using assms(1-4)
    by (simp add: addQueueItem_final requests_dc_loop no_progress_def)
  have len: "length (requests (final ?r)) =
               length (selectedDatacenters f) * digits_value (quantityInput f)"
    by (simp only: req length_concat_replicate)
  have posts: "filter (\<lambda>c. c \<noteq> GET_queue) (calls ?r) = map POST_queue (requests (final ?r))"
    using assms(1-4) by (simp add: addQueueItem_calls(1) filter_map comp_def)
  have "distinct (selectedDatacenters f) \<longrightarrow>
          length (requests (final ?r)) =
            card (set (selectedDatacenters f)) * digits_value (quantityInput f)"
    by (simp add: len distinct_card)
  with req len posts show ?thesis by blast
qed

theorem addQueueItem_fan_out_witness:
  "trim (planCodeInput form0) \<noteq> []
   \<and> selectedDatacenters form0 \<noteq> []
   \<and> list_all is_digit (quantityInput form0)
   \<and> 1 \<le> digits_value (quantityInput form0)
   \<and> int (digits_value (quantityInput form0)) \<le> MAX_SAFE_INTEGER
   \<and> list_all is_digit (retryIntervalInput form0)
   \<and> int (digits_value (retryIntervalInput form0)) \<le> MAX_SAFE_INTEGER
   \<and> \<bar>30 :: int\<bar> \<le> MAX_SAFE_INTEGER
   \<and> distinct (selectedDatacenters form0)
   \<and> length (requests (final (addQueueItem 30 api0 form0))) = 4
   \<and> map rq_datacenter (requests (final (addQueueItem 30 api0 form0))) =
        [str ''gra'', str ''gra'', str ''rbx'', str ''rbx'']
   \<and> map rq_retryInterval (requests (final (addQueueItem 30 api0 form0))) =
        [Num 45, Num 45, Num 45, Num 45]"
proof -
  note h1 = form0_valid(1) and h2 = form0_valid(2) and h3 = form0_valid(3)
    and v = form0_valid(4) and dcs = form0_valid(5) and h6 = form0_valid(6)
    and rv = form0_valid(7)
  have h4: "1 \<le> digits_value (quantityInput form0)" by (simp add: v)
  have h5: "int (digits_value (quantityInput form0)) \<le> MAX_SAFE_INTEGER"
    by (simp add: v MAX_SAFE_INTEGER_def)
  have h7: "int (digits_value (retryIntervalInput form0)) \<le> MAX_SAFE_INTEGER"
    by (simp add: rv MAX_SAFE_INTEGER_def)
  have h8: "distinct (selectedDatacenters form0)" by (simp add: dcs str_def)
  have h9: "\<bar>30 :: int\<bar> \<le> MAX_SAFE_INTEGER" by (simp add: MAX_SAFE_INTEGER_def)
  have retry: "js_or (Number_string (retryIntervalInput form0)) (Num 30) = Num 45"
    by (simp add: Number_string_digits [OF h6] rv)
  from addQueueItem_fan_out [OF h1 h2 h3 h4 h5 h6 h7 h9, of api0] h8
  have "length (requests (final (addQueueItem 30 api0 form0))) = 4"
   and "map rq_datacenter (requests (final (addQueueItem 30 api0 form0))) =
        [str ''gra'', str ''gra'', str ''rbx'', str ''rbx'']"
   and "map rq_retryInterval (requests (final (addQueueItem 30 api0 form0))) =
        [Num 45, Num 45, Num 45, Num 45]"
    by (simp_all add: v dcs retry numeral_2_eq_2)
  with h1 h2 h3 h4 h5 h6 h7 h8 h9 show ?thesis by blast
qed

text \<open>
  Claim C9. The fan-out of \<open>addQueueItem\<close> is not atomic. Each of the \<open>|D| * N\<close> task
  creations is a call of its own; whatever the server answers to each, the loop runs to
  its end, so that \<open>successCount + errorCount = |D| * N\<close>; the tasks acknowledged are
  exactly the calls the server accepted, whether calls before or after them failed;
  the page sends nothing but these \<open>POST /queue\<close> calls and the closing \<open>GET /queue\<close>,
  so it deletes nothing; and the form is reset exactly when \<open>successCount > 0\<close> or
  \<open>errorCount = 0\<close>, and is left as it was otherwise. The form must hold a plan code;
  the two numeric inputs are strings of digits, and their values, the total \<open>|D| * N\<close>
  and the default retry interval are within the integers a JavaScript number counts
  exactly.
\<close>

theorem addQueueItem_not_atomic:
  assumes "trim (planCodeInput f) \<noteq> []" and "selectedDatacenters f \<noteq> []"
      and "list_all is_digit (quantityInput f)" and "1 \<le> digits_value (quantityInput f)"
      and "int (digits_value (quantityInput f)) \<le> MAX_SAFE_INTEGER"
      and "int (length (selectedDatacenters f) * digits_value (quantityInput f))
             \<le> MAX_SAFE_INTEGER"
      and "list_all is_digit (retryIntervalInput f)"
      and "int (digits_value (retryIntervalInput f)) \<le> MAX_SAFE_INTEGER"
      and "\<bar>T\<bar> \<le> MAX_SAFE_INTEGER"
  shows "successCount (final (addQueueItem T api f)) + errorCount (final (addQueueItem T api f))
           = length (selectedDatacenters f) * digits_value (quantityInput f)
       \<and> created (final (addQueueItem T api f)) =
           nths (requests (final (addQueueItem T api f))) {k. api k}
       \<and> successCount (final (addQueueItem T api f)) =
           length (created (final (addQueueItem T api f)))
       \<and> calls (addQueueItem T api f) =
           map POST_queue (requests (final (addQueueItem T api f)))
           @ (if form_after (addQueueItem T api f) = f then [] else [GET_queue])
       \<and> form_after (addQueueItem T api f) =
           (if successCount (final (addQueueItem T api f)) > 0
                 \<or> errorCount (final (addQueueItem T api f)) = 0
            then reset_form T f else f)"
proof -
  let ?r = "addQueueItem T api f"
  let ?body = "\<lambda>dc. \<lparr>rq_planCode = trim (planCodeInput f), rq_datacenter = dc,
                    rq_retryInterval = js_or (Number_string (retryIntervalInput f)) (Num T),
                    rq_options = selectedOptions f\<rparr>"
  let ?N = "digits_value (quantityInput f)"
  let ?B = "length (selectedDatacenters f) * ?N"
  note valid = assms(1-4)
  have fin: "final ?r = dc_loop api ?body (Num (int ?N)) (selectedDatacenters f) no_progress"
    using valid by (rule addQueueItem_final)
  have bound: "int ?B \<le> MAX_SAFE_INTEGER + 1" using assms(6) by simp
  have fits: "length (requests no_progress) + length (selectedDatacenters f) * nat (int ?N) \<le> ?B"
    by (simp add: no_progress_def)
  have "counted api (final ?r)"
    unfolding fin using bound counted_no_progress fits by (rule counted_dc_loop)
  then have sum: "successCount (final ?r) + errorCount (final ?r) = length (requests (final ?r))"
    and succ: "successCount (final ?r) = length (created (final ?r))"
    and kept: "created (final ?r) = nths (requests (final ?r)) {k. api k}"
    unfolding counted_def by blast+
  have "length (requests (final ?r)) = length (selectedDatacenters f) * ?N"
    unfolding fin by (simp add: requests_dc_loop no_progress_def length_concat_replicate)
  with sum have total:
    "successCount (final ?r) + errorCount (final ?r) = length (selectedDatacenters f) * ?N"
    by simp
  have form: "form_after ?r =
        (if successCount (final ?r) > 0 \<or> errorCount (final ?r) = 0 then reset_form T f else f)"
    using valid by (rule addQueueItem_calls(2))
  have changed: "reset_form T f \<noteq> f"
  proof
    assume "reset_form T f = f"
    then have "selectedDatacenters (reset_form T f) = selectedDatacenters f" by simp
    with assms(2) show False by (simp add: reset_form_def)
  qed
  have "calls ?r = map POST_queue (requests (final ?r))
           @ (if form_after ?r = f then [] else [GET_queue])"
    using changed by (simp add: addQueueItem_calls(1) [OF valid] form)
  with total kept succ form show ?thesis by blast
qed

text \<open>The run of \<open>form0\<close> against \<open>api0\<close>: four calls, the second refused; the three
  others stay created and the form is reset.\<close>

lemma addQueueItem_partial_run:
  "successCount (final (addQueueItem 30 api0 form0)) = 3
   \<and> errorCount (final (addQueueItem 30 api0 form0)) = 1
   \<and> map rq_datacenter (created (final (addQueueItem 30 api0 form0))) =
        [str ''gra'', str ''rbx'', str ''rbx'']
   \<and> form_after (addQueueItem 30 api0 form0) = reset_form 30 form0"
  by (simp add: addQueueItem_def form0_def api0_def str_def trim_def is_whitespace_def
        Number_string_def is_digit_def digits_value_def unit_loop.simps post_queue_def
        js_increment_def MAX_SAFE_INTEGER_def no_progress_def Let_def)

theorem addQueueItem_not_atomic_witness:
  "trim (planCodeInput form0) \<noteq> []
   \<and> selectedDatacenters form0 \<noteq> []
   \<and> list_all is_digit (quantityInput form0)
   \<and> 1 \<le> digits_value (quantityInput form0)
   \<and> int (digits_value (quantityInput form0)) \<le> MAX_SAFE_INTEGER
   \<and> int (length (selectedDatacenters form0) * digits_value (quantityInput form0))
        \<le> MAX_SAFE_INTEGER
   \<and> list_all is_digit (retryIntervalInput form0)
   \<and> int (digits_value (retryIntervalInput form0)) \<le> MAX_SAFE_INTEGER
   \<and> \<bar>30 :: int\<bar> \<le> MAX_SAFE_INTEGER
   \<and> successCount (final (addQueueItem 30 api0 form0))
       + errorCount (final (addQueueItem 30 api0 form0)) = 4
   \<and> successCount (final (addQueueItem 30 api0 form0)) = 3"
proof -
  note h1 = form0_valid(1) and h2 = form0_valid(2) and h3 = form0_valid(3)
    and v = form0_valid(4) and dcs = form0_valid(5) and h7 = form0_valid(6)
    and rv = form0_valid(7)
  have h4: "1 \<le> digits_value (quantityInput form0)" by (simp add: v)
  have h5: "int (digits_value (quantityInput form0)) \<le> MAX_SAFE_INTEGER"
    by (simp add: v MAX_SAFE_INTEGER_def)
  have h6: "int (length (selectedDatacenters form0) * digits_value (quantityInput form0))
        \<le> MAX_SAFE_INTEGER"
    by (simp add: v dcs MAX_SAFE_INTEGER_def)
  have h8: "int (digits_value (retryIntervalInput form0)) \<le> MAX_SAFE_INTEGER"
    by (simp add: rv MAX_SAFE_INTEGER_def)
  have h9: "\<bar>30 :: int\<bar> \<le> MAX_SAFE_INTEGER" by (simp add: MAX_SAFE_INTEGER_def)
  from addQueueItem_not_atomic [OF h1 h2 h3 h4 h5 h6 h7 h8 h9, of api0]
  have "successCount (final (addQueueItem 30 api0 form0))
       + errorCount (final (addQueueItem 30 api0 form0))
       = length (selectedDatacenters form0) * digits_value (quantityInput form0)"
    by (rule conjunct1)
  then have total: "successCount (final (addQueueItem 30 api0 form0))
       + errorCount (final (addQueueItem 30 api0 form0)) = 4"
    by (simp add: v dcs)
  have "successCount (final (addQueueItem 30 api0 form0)) = 3"
    using addQueueItem_partial_run by (rule conjunct1)
  with h1 h2 h3 h4 h5 h6 h7 h8 h9 total show ?thesis by blast
qed

section \<open>Properties of the order countdown\<close>

lemma formatCountdown_expired_iff:
  "(formatCountdown r = EXPIRED_TEXT) = js_le r (Num 0)"
proof (cases "js_le r (Num 0)")
  case True
  then show ?thesis by (simp add: formatCountdown_def)
next
  case False
  have "last (formatCountdown r) = 0x79D2"
    using False by (simp add: formatCountdown_def Let_def SECOND_TEXT_def)
  moreover have "last EXPIRED_TEXT = 0x671F" by (simp add: EXPIRED_TEXT_def)
  ultimately have "formatCountdown r \<noteq> EXPIRED_TEXT" by auto
  with False show ?thesis by simp
qed

lemma getTime_new_Date_string_range:
  "getTime (new_Date_string parse s) = Num t \<Longrightarrow> \<bar>t\<bar> \<le> 8640000000000000"
  by (cases "parse s") (auto simp: new_Date_string_def split: if_splits)

text \<open>
  Claim C10, as stated: \<open>getExpirationTime\<close> returns the entry's \<open>expirationTime\<close>
  whenever the entry has one. It does not when the entry's \<open>expirationTime\<close> is the
  empty string: \<open>new Date("")\<close> is an Invalid Date, and the function returns the
  purchase time plus fifteen minutes.
\<close>

theorem getExpirationTime_empty_counterexample:
  "getExpirationTime parse0 (str ''2024-01-01T00:00:00.000Z'') (Some [])
     = Date (Num 1704068100000)
   \<and> new_Date_string parse0 [] = Date NaN
   \<and> getExpirationTime parse0 (str ''2024-01-01T00:00:00.000Z'') (Some [])
     \<noteq> new_Date_string parse0 []"
  by (simp add: getExpirationTime_def new_Date_string_def new_Date_number_def parse0_def
        ORDER_VALIDITY_MINUTES_def str_def)

text \<open>
  Claim C10, amended. For every purchase-history entry, \<open>getExpirationTime\<close> returns
  the entry's \<open>expirationTime\<close> when it is present and not the empty string; when it is
  absent or empty it returns the date \<open>ORDER_VALIDITY_MINUTES * 60 * 1000 = 900000\<close> ms
  after \<open>purchaseTime\<close>, which is exactly fifteen minutes later whenever \<open>purchaseTime\<close>
  is a valid date and the sum is within the range of \<open>Date\<close>. \<open>formatCountdown\<close>
  returns the expired marker exactly when the remaining time is \<open>\<le> 0\<close> ms.
\<close>

theorem getExpirationTime_formatCountdown:
  "(\<forall>e. e \<noteq> [] \<longrightarrow> getExpirationTime parse purchaseTime (Some e) = new_Date_string parse e)
   \<and> getExpirationTime parse purchaseTime None =
       new_Date_number (js_add (getTime (new_Date_string parse purchaseTime))
                          (Num (ORDER_VALIDITY_MINUTES * 60 * 1000)))
   \<and> getExpirationTime parse purchaseTime (Some []) = getExpirationTime parse purchaseTime None
   \<and> ORDER_VALIDITY_MINUTES * 60 * 1000 = 900000
   \<and> (\<forall>t. getTime (new_Date_string parse purchaseTime) = Num t
            \<and> t + 900000 \<le> 8640000000000000
          \<longrightarrow> getTime (getExpirationTime parse purchaseTime None) = Num (t + 900000))
   \<and> ((formatCountdown remainingMs = EXPIRED_TEXT) = js_le remainingMs (Num 0))"
proof -
  have present: "\<forall>e. e \<noteq> [] \<longrightarrow>
      getExpirationTime parse purchaseTime (Some e) = new_Date_string parse e"
    by (simp add: getExpirationTime_def)
  have absent: "getExpirationTime parse purchaseTime None =
       new_Date_number (js_add (getTime (new_Date_string parse purchaseTime))
                          (Num (ORDER_VALIDITY_MINUTES * 60 * 1000)))"
    by (simp add: getExpirationTime_def)
  have empty: "getExpirationTime parse purchaseTime (Some []) =
       getExpirationTime parse purchaseTime None"
    by (simp add: getExpirationTime_def)
  have ms: "ORDER_VALIDITY_MINUTES * 60 * 1000 = 900000"
    by (simp add: ORDER_VALIDITY_MINUTES_def)
  have exact: "\<forall>t. getTime (new_Date_string parse purchaseTime) = Num t
            \<and> t + 900000 \<le> 8640000000000000
          \<longrightarrow> getTime (getExpirationTime parse purchaseTime None) = Num (t + 900000)"
  proof (intro allI impI)
    fix t
    assume a: "getTime (new_Date_string parse purchaseTime) = Num t
                 \<and> t + 900000 \<le> 8640000000000000"
    then have "getTime (new_Date_string parse purchaseTime) = Num t" by (rule conjunct1)
    then have "\<bar>t\<bar> \<le> 8640000000000000" by (rule getTime_new_Date_string_range)
    with a have "\<bar>t + 900000\<bar> \<le> 8640000000000000" by linarith
    with a show "getTime (getExpirationTime parse purchaseTime None) = Num (t + 900000)"
      by (simp add: absent ms new_Date_number_def)
  qed
  from present absent empty ms exact formatCountdown_expired_iff [of remainingMs]
  show ?thesis by blast
qed

theorem getExpirationTime_formatCountdown_witness:
  "str ''2024-01-01T00:20:00.000Z'' \<noteq> []
   \<and> getExpirationTime parse0 (str ''2024-01-01T00:00:00.000Z'')
        (Some (str ''2024-01-01T00:20:00.000Z'')) = Date (Num 1704068400000)
   \<and> getTime (new_Date_string parse0 (str ''2024-01-01T00:00:00.000Z'')) = Num 1704067200000
   \<and> (1704067200000 :: int) + 900000 \<le> 8640000000000000
   \<and> getTime (getExpirationTime parse0 (str ''2024-01-01T00:00:00.000Z'') None)
       = Num 1704068100000
   \<and> formatCountdown (Num 0) = EXPIRED_TEXT
   \<and> formatCountdown (Num 1) \<noteq> EXPIRED_TEXT"
proof -
  let ?p = "str ''2024-01-01T00:00:00.000Z''"
  let ?e = "str ''2024-01-01T00:20:00.000Z''"
  have ne: "?e \<noteq> []" by (simp add: str_def)
  have pt: "getTime (new_Date_string parse0 ?p) = Num 1704067200000"
    by (simp add: new_Date_string_def parse0_def str_def)
  have et: "new_Date_string parse0 ?e = Date (Num 1704068400000)"
    by (simp add: new_Date_string_def parse0_def str_def)
  have rng: "(1704067200000 :: int) + 900000 \<le> 8640000000000000" by simp
  note inst = getExpirationTime_formatCountdown [of parse0 ?p]
  from inst [of "Num 0"] ne
  have a: "getExpirationTime parse0 ?p (Some ?e) = Date (Num 1704068400000)"
    by (simp add: et)
  from inst [of "Num 0"]
  have "getTime (new_Date_string parse0 ?p) = Num 1704067200000
          \<and> (1704067200000 :: int) + 900000 \<le> 8640000000000000
        \<longrightarrow> getTime (getExpirationTime parse0 ?p None) = Num (1704067200000 + 900000)"
    by blast
  with pt rng have b: "getTime (getExpirationTime parse0 ?p None) = Num 1704068100000"
    by simp
  from inst [of "Num 0"] have c: "formatCountdown (Num 0) = EXPIRED_TEXT" by simp
  from inst [of "Num 1"] have d: "formatCountdown (Num 1) \<noteq> EXPIRED_TEXT" by simp
  from ne a pt rng b c d show ?thesis by blast
qed

section \<open>Properties of the command parser\<close>

lemma Parse_after_plan:
  assumes "tokens text = plan # t # rest"
  shows "\<exists>i. Parse known text = Inr [i]
      \<and> ri_planCode i = lower plan
      \<and> ri_datacenter i = (if lower t \<in> set known then Some (lower t) else None)
      \<and> (lower t \<notin> set known \<and> positive_integer t \<longrightarrow> ri_quantity i = digits_value t)
      \<and> (lower t \<notin> set known \<and> \<not> positive_integer t \<longrightarrow>
            ri_quantity i = 1
            \<and> ri_options i = Some (split_commas t @ concat (map split_commas rest)))"
  using assms by (auto simp: Parse_def Let_def split: list.splits)

lemma tokens_examples:
  "tokens (str ''24sk202 rbx 3 ram-64g,softraid-2x450'') =
     [str ''24sk202'', str ''rbx'', str ''3'', str ''ram-64g,softraid-2x450'']"
  "tokens (str ''24sk202'') = [str ''24sk202'']"
  "tokens (str ''24sk202 3'') = [str ''24sk202'', str ''3'']"
  by (simp_all add: tokens_def str_def is_whitespace_def)

lemma lower_examples:
  "lower (str ''24sk202'') = str ''24sk202''"
  "lower (str ''rbx'') = str ''rbx''"
  "lower (str ''3'') = str ''3''"
  by (simp_all add: lower_def str_def)

lemma positive_integer_3: "positive_integer (str ''3'')" "digits_value (str ''3'') = 3"
  by (simp_all add: positive_integer_def str_def is_digit_def digits_value_def)

lemma split_commas_example:
  "split_commas (str ''ram-64g,softraid-2x450'') = [str ''ram-64g'', str ''softraid-2x450'']"
  by (simp add: split_commas_def str_def)

lemma Parse_full:
  "str ''rbx'' \<in> set known \<Longrightarrow>
   Parse known (str ''24sk202 rbx 3 ram-64g,softraid-2x450'') =
     Inr [\<lparr>ri_planCode = str ''24sk202'', ri_datacenter = Some (str ''rbx''), ri_quantity = 3,
           ri_options = Some [str ''ram-64g'', str ''softraid-2x450'']\<rparr>]"
  by (simp add: Parse_def tokens_examples lower_examples positive_integer_3
        split_commas_example)

lemma Parse_plan:
  "Parse known (str ''24sk202'') =
     Inr [\<lparr>ri_planCode = str ''24sk202'', ri_datacenter = None, ri_quantity = 1,
           ri_options = None\<rparr>]"
  by (simp add: Parse_def tokens_examples lower_examples)

lemma Parse_plan_quantity:
  "str ''3'' \<notin> set known \<Longrightarrow>
   Parse known (str ''24sk202 3'') =
     Inr [\<lparr>ri_planCode = str ''24sk202'', ri_datacenter = None, ri_quantity = 3,
           ri_options = None\<rparr>]"
  by (simp add: Parse_def tokens_examples lower_examples positive_integer_3)

text \<open>
  Claim C4. For every command text whose first token is a plan code, \<open>Parse\<close> takes the
  token after the plan code as the datacenter only if it is a known datacenter code,
  else as the quantity if it is a positive integer, else as the start of the options
  list. Hence, when \<open>rbx\<close> is a known datacenter code and \<open>3\<close> is not,
  \<open>24sk202 rbx 3 ram-64g,softraid-2x450\<close> gives datacenter \<open>rbx\<close>, quantity 3 and
  options \<open>[ram-64g, softraid-2x450]\<close>; \<open>24sk202\<close> gives the wildcard datacenter,
  quantity 1 and wildcard options; and \<open>24sk202 3\<close> gives the wildcard datacenter,
  quantity 3 and wildcard options.
\<close>

theorem Parse_classification:
  "(\<forall>plan t rest. tokens text = plan # t # rest \<longrightarrow>
      (\<exists>i. Parse known text = Inr [i]
         \<and> ri_datacenter i = (if lower t \<in> set known then Some (lower t) else None)
         \<and> (lower t \<notin> set known \<and> positive_integer t \<longrightarrow> ri_quantity i = digits_value t)
         \<and> (lower t \<notin> set known \<and> \<not> positive_integer t \<longrightarrow>
               (\<exists>more. ri_options i = Some (split_commas t @ more)))))
   \<and> (str ''rbx'' \<in> set known \<longrightarrow>
        Parse known (str ''24sk202 rbx 3 ram-64g,softraid-2x450'') =
          Inr [\<lparr>ri_planCode = str ''24sk202'', ri_datacenter = Some (str ''rbx''),
                ri_quantity = 3,
                ri_options = Some [str ''ram-64g'', str ''softraid-2x450'']\<rparr>])
   \<and> Parse known (str ''24sk202'') =
        Inr [\<lparr>ri_planCode = str ''24sk202'', ri_datacenter = None, ri_quantity = 1,
              ri_options = None\<rparr>]
   \<and> (str ''3'' \<notin> set known \<longrightarrow>
        Parse known (str ''24sk202 3'') =
          Inr [\<lparr>ri_planCode = str ''24sk202'', ri_datacenter = None, ri_quantity = 3,
                ri_options = None\<rparr>])"
proof -
  have general: "\<forall>plan t rest. tokens text = plan # t # rest \<longrightarrow>
      (\<exists>i. Parse known text = Inr [i]
         \<and> ri_datacenter i = (if lower t \<in> set known then Some (lower t) else None)
         \<and> (lower t \<notin> set known \<and> positive_integer t \<longrightarrow> ri_quantity i = digits_value t)
         \<and> (lower t \<notin> set known \<and> \<not> positive_integer t \<longrightarrow>
               (\<exists>more. ri_options i = Some (split_commas t @ more))))"
  proof (intro allI impI)
    fix plan t rest
    assume "tokens text = plan # t # rest"
    from Parse_after_plan [OF this, of known]
    show "\<exists>i. Parse known text = Inr [i]
         \<and> ri_datacenter i = (if lower t \<in> set known then Some (lower t) else None)
         \<and> (lower t \<notin> set known \<and> positive_integer t \<longrightarrow> ri_quantity i = digits_value t)
         \<and> (lower t \<notin> set known \<and> \<not> positive_integer t \<longrightarrow>
               (\<exists>more. ri_options i = Some (split_commas t @ more)))"
      by blast
  qed
  from general Parse_full [of known] Parse_plan [of known] Parse_plan_quantity [of known]
  show ?thesis by blast
qed

theorem Parse_classification_witness:
  "str ''rbx'' \<in> set known0
   \<and> str ''3'' \<notin> set known0
   \<and> Parse known0 (str ''24sk202 rbx 3 ram-64g,softraid-2x450'') =
        Inr [\<lparr>ri_planCode = str ''24sk202'', ri_datacenter = Some (str ''rbx''),
              ri_quantity = 3,
              ri_options = Some [str ''ram-64g'', str ''softraid-2x450'']\<rparr>]
   \<and> Parse known0 (str ''24sk202 3'') =
        Inr [\<lparr>ri_planCode = str ''24sk202'', ri_datacenter = None, ri_quantity = 3,
              ri_options = None\<rparr>]
   \<and> tokens (str ''24sk202 3'') = str ''24sk202'' # str ''3'' # []
   \<and> lower (str ''3'') \<notin> set known0
   \<and> positive_integer (str ''3'')
   \<and> (\<exists>i. Parse known0 (str ''24sk202 3'') = Inr [i] \<and> ri_datacenter i = None
          \<and> ri_quantity i = 3)"
proof -
  have k1: "str ''rbx'' \<in> set known0" by (simp add: known0_def str_def)
  have k2: "str ''3'' \<notin> set known0" by (simp add: known0_def str_def)
  have t: "tokens (str ''24sk202 3'') = str ''24sk202'' # str ''3'' # []"
    by (simp add: tokens_examples)
  have l: "lower (str ''3'') \<notin> set known0" using k2 by (simp add: lower_examples)
  note p = positive_integer_3
  from Parse_classification [of "str ''24sk202 3''" known0] t
  have "\<exists>i. Parse known0 (str ''24sk202 3'') = Inr [i]
         \<and> ri_datacenter i =
             (if lower (str ''3'') \<in> set known0 then Some (lower (str ''3'')) else None)
         \<and> (lower (str ''3'') \<notin> set known0 \<and> positive_integer (str ''3'')
              \<longrightarrow> ri_quantity i = digits_value (str ''3''))
         \<and> (lower (str ''3'') \<notin> set known0 \<and> \<not> positive_integer (str ''3'') \<longrightarrow>
               (\<exists>more. ri_options i = Some (split_commas (str ''3'') @ more)))"
    by blast
  with l p have g: "\<exists>i. Parse known0 (str ''24sk202 3'') = Inr [i] \<and> ri_datacenter i = None
          \<and> ri_quantity i = 3"
    by auto
  from Parse_classification [of "str ''24sk202 3''" known0] k1 k2
  have "Parse known0 (str ''24sk202 rbx 3 ram-64g,softraid-2x450'') =
        Inr [\<lparr>ri_planCode = str ''24sk202'', ri_datacenter = Some (str ''rbx''),
              ri_quantity = 3,
              ri_options = Some [str ''ram-64g'', str ''softraid-2x450'']\<rparr>]"
    and "Parse known0 (str ''24sk202 3'') =
        Inr [\<lparr>ri_planCode = str ''24sk202'', ri_datacenter = None, ri_quantity = 3,
              ri_options = None\<rparr>]"
    by blast+
  with k1 k2 t l p g show ?thesis by blast
qed

section \<open>Properties of the task queue\<close>





















section \<open>Properties of the availability monitor\<close>

lemma observe_flags:
  "autoOrder (sub (observe cap now e obs)) = autoOrder (sub e)"
  "datacenters (sub (observe cap now e obs)) = datacenters (sub e)"
  "planCode (sub (observe cap now e obs)) = planCode (sub e)"
  by (simp_all add: observe_def Let_def split: prod.splits)

lemma observe_lastStatus:
  "lastStatus (sub (observe cap now e obs)) dc =
     (if fst obs = dc then Some (snd obs) else lastStatus (sub e) dc)"
  by (simp add: observe_def Let_def split: prod.splits)

lemma all_auto_orders_append:
  "all_auto_orders (xs @ ys) = all_auto_orders xs @ all_auto_orders ys"
  by (simp add: all_auto_orders_def)

lemma all_auto_orders_simps:
  "all_auto_orders [] = []"
  "all_auto_orders (Notify ev # out) = all_auto_orders out"
  "all_auto_orders (Auto_order i # out) = i # all_auto_orders out"
  by (simp_all add: all_auto_orders_def)

lemma observe_all_auto_orders:
  "all_auto_orders (sent (observe cap now e obs)) =
     all_auto_orders (sent e)
     @ (if snd obs = available \<and> lastStatus (sub e) (fst obs) \<noteq> Some available
           \<and> autoOrder (sub e)
        then [auto_intent (sub e) (fst obs)] else [])"
  by (cases obs)
     (auto simp: observe_def Let_def all_auto_orders_append all_auto_orders_simps)

lemma auto_intent_datacenter: "ri_datacenter (auto_intent s d) = Some d"
  by (simp add: auto_intent_def)

lemma observe_auto_orders:
  "auto_orders dc (sent (observe cap now e obs)) =
     auto_orders dc (sent e)
     @ (if fst obs = dc \<and> snd obs = available \<and> lastStatus (sub e) dc \<noteq> Some available
           \<and> autoOrder (sub e)
        then [auto_intent (sub e) dc] else [])"
  by (auto simp: auto_orders_def observe_all_auto_orders auto_intent_datacenter)

lemma foldl_observe_flags:
  "autoOrder (sub (foldl (observe cap now) e obsl)) = autoOrder (sub e)
   \<and> datacenters (sub (foldl (observe cap now) e obsl)) = datacenters (sub e)
   \<and> planCode (sub (foldl (observe cap now) e obsl)) = planCode (sub e)"
  by (induction obsl arbitrary: e) (simp_all add: observe_flags)

lemma foldl_observe_count:
  "autoOrder (sub e) \<Longrightarrow>
   length (auto_orders dc (sent (foldl (observe cap now) e obsl))) =
     length (auto_orders dc (sent e))
     + transitions_into_available (lastStatus (sub e) dc)
         (map snd (filter (\<lambda>obs. fst obs = dc) obsl))"
proof (induction obsl arbitrary: e)
  case Nil
  then show ?case by simp
next
  case (Cons obs obsl)
  have "autoOrder (sub (observe cap now e obs))" using Cons.prems by (simp add: observe_flags)
  from Cons.IH [OF this] Cons.prems show ?case
    by (simp add: observe_auto_orders observe_lastStatus)
qed

lemma foldl_observe_lastStatus:
  "lastStatus (sub (foldl (observe cap now) e obsl)) dc =
     (let seen = map snd (filter (\<lambda>obs. fst obs = dc) obsl)
      in if seen = [] then lastStatus (sub e) dc else Some (last seen))"
  by (induction obsl arbitrary: e) (simp_all add: observe_lastStatus Let_def)

lemma transitions_append:
  "transitions_into_available prev (xs @ ys) =
     transitions_into_available prev xs
     + transitions_into_available (if xs = [] then prev else Some (last xs)) ys"
  by (induction xs arbitrary: prev) simp_all

lemma filter_watched_dc:
  "watched s dc \<Longrightarrow>
   filter (\<lambda>obs. watched s (fst obs) \<and> fst obs = dc) report =
   filter (\<lambda>obs. fst obs = dc) report"
  by (rule filter_cong) auto

lemma tick_flags:
  "autoOrder (sub (tick cap e poll)) = autoOrder (sub e)
   \<and> datacenters (sub (tick cap e poll)) = datacenters (sub e)
   \<and> planCode (sub (tick cap e poll)) = planCode (sub e)"
  by (cases "snd poll") (simp_all add: tick_def foldl_observe_flags)

lemma tick_count:
  assumes "autoOrder (sub e)" and "watched (sub e) dc"
  shows "length (auto_orders dc (sent (tick cap e poll))) =
           length (auto_orders dc (sent e))
           + transitions_into_available (lastStatus (sub e) dc) (reported dc (snd poll))"
  using assms
  by (cases "snd poll") (simp_all add: tick_def foldl_observe_count filter_watched_dc)

lemma tick_lastStatus:
  assumes "watched (sub e) dc"
  shows "lastStatus (sub (tick cap e poll)) dc =
           (if reported dc (snd poll) = [] then lastStatus (sub e) dc
            else Some (last (reported dc (snd poll))))"
  using assms
  by (cases "snd poll")
     (simp_all add: tick_def foldl_observe_lastStatus filter_watched_dc Let_def)

lemma foldl_tick_count:
  assumes "autoOrder (sub e)" and "watched (sub e) dc"
  shows "length (auto_orders dc (sent (foldl (tick cap) e polls))) =
           length (auto_orders dc (sent e))
           + transitions_into_available (lastStatus (sub e) dc) (observations dc polls)"
  using assms
proof (induction polls arbitrary: e)
  case Nil
  then show ?case by (simp add: observations_def)
next
  case (Cons poll polls)
  let ?e = "tick cap e poll"
  have a: "autoOrder (sub ?e)" using Cons.prems(1) by (simp add: tick_flags)
  have w: "watched (sub ?e) dc" using Cons.prems(2) by (simp add: watched_def tick_flags)
  have obs: "observations dc (poll # polls) = reported dc (snd poll) @ observations dc polls"
    by (simp add: observations_def)
  from Cons.IH [OF a w] show ?case
    by (simp add: obs transitions_append tick_count [OF Cons.prems]
          tick_lastStatus [OF Cons.prems(2)])
qed


lemma auto_intent_cong:
  "planCode s' = planCode s \<Longrightarrow> auto_intent s' d = auto_intent s d"
  by (simp add: auto_intent_def)

lemma watched_cong: "datacenters s' = datacenters s \<Longrightarrow> watched s' d = watched s d"
  by (simp add: watched_def)

lemma well_formed_cong:
  "planCode s' = planCode s \<Longrightarrow> datacenters s' = datacenters s \<Longrightarrow>
   well_formed s' os = well_formed s os"
  by (simp add: well_formed_def auto_intent_def watched_def)

lemma foldl_observe_well_formed:
  "well_formed (sub e) (all_auto_orders (sent e)) \<Longrightarrow>
   \<forall>obs \<in> set obsl. watched (sub e) (fst obs) \<Longrightarrow>
   well_formed (sub e) (all_auto_orders (sent (foldl (observe cap now) e obsl)))"
proof (induction obsl arbitrary: e)
  case Nil
  then show ?case by simp
next
  case (Cons obs obsl)
  let ?e = "observe cap now e obs"
  have same: "planCode (sub ?e) = planCode (sub e)" "datacenters (sub ?e) = datacenters (sub e)"
    by (simp_all add: observe_flags)
  have "well_formed (sub e) (all_auto_orders (sent ?e))"
    using Cons.prems by (auto simp: well_formed_def observe_all_auto_orders)
  then have wf: "well_formed (sub ?e) (all_auto_orders (sent ?e))"
    by (simp add: well_formed_cong [OF same])
  have "\<forall>obs \<in> set obsl. watched (sub ?e) (fst obs)"
    using Cons.prems(2) by (simp add: watched_cong [OF same(2)])
  with wf have "well_formed (sub ?e) (all_auto_orders (sent (foldl (observe cap now) ?e obsl)))"
    by (rule Cons.IH)
  then show ?case by (simp add: well_formed_cong [OF same])
qed

lemma tick_well_formed:
  "well_formed (sub e) (all_auto_orders (sent e)) \<Longrightarrow>
   well_formed (sub e) (all_auto_orders (sent (tick cap e poll)))"
proof (cases "snd poll")
  case Fetch_failed
  then show "well_formed (sub e) (all_auto_orders (sent e)) \<Longrightarrow> ?thesis"
    by (simp add: tick_def)
next
  case (Availability report)
  assume "well_formed (sub e) (all_auto_orders (sent e))"
  then have "well_formed (sub e) (all_auto_orders (sent (foldl (observe cap (fst poll)) e
               (filter (\<lambda>obs. watched (sub e) (fst obs)) report))))"
    by (rule foldl_observe_well_formed) simp
  with Availability show ?thesis by (simp add: tick_def)
qed

lemma foldl_tick_well_formed:
  "well_formed (sub e) (all_auto_orders (sent e)) \<Longrightarrow>
   well_formed (sub e) (all_auto_orders (sent (foldl (tick cap) e polls)))"
proof (induction polls arbitrary: e)
  case Nil
  then show ?case by simp
next
  case (Cons poll polls)
  let ?e = "tick cap e poll"
  have same: "planCode (sub ?e) = planCode (sub e)" "datacenters (sub ?e) = datacenters (sub e)"
    by (simp_all add: tick_flags)
  have "well_formed (sub e) (all_auto_orders (sent ?e))"
    using Cons.prems by (rule tick_well_formed)
  then have "well_formed (sub ?e) (all_auto_orders (sent ?e))"
    by (simp add: well_formed_cong [OF same])
  then have "well_formed (sub ?e) (all_auto_orders (sent (foldl (tick cap) ?e polls)))"
    by (rule Cons.IH)
  then show ?case by (simp add: well_formed_cong [OF same])
qed

lemma start_simps:
  "sub (start s) = s" "all_auto_orders (sent (start s)) = []"
  "auto_orders dc (sent (start s)) = []"
  by (simp_all add: start_def all_auto_orders_def auto_orders_def)


text \<open>From an automatic order to tasks.\<close>

lemma tasks_at_Add:
  "length (tasks_at dc (Add now interval st p)) =
     length (tasks_at dc st) + (if pi_datacenter p = dc then 1 else 0)"
  by (simp add: tasks_at_def Add_def)

lemma tasks_at_foldl_Add:
  "length (tasks_at dc (foldl (Add now interval) st ps)) =
     length (tasks_at dc st) + length (filter (\<lambda>p. pi_datacenter p = dc) ps)"
  by (induction ps arbitrary: st) (simp_all add: tasks_at_Add)

lemma length_tasks_foldl_Add:
  "length (tasks (foldl (Add now interval) st ps)) = length (tasks st) + length ps"
  by (induction ps arbitrary: st) (simp_all add: Add_def)

lemma filter_eq_distinct:
  "distinct xs \<Longrightarrow> filter (\<lambda>x. x = d) xs = (if d \<in> set xs then [d] else [])"
  by (induction xs) auto

lemma Resolve_auto_intent:
  "fst (Resolve cat (auto_intent s d)) =
     (if d \<in> set (map fst (in_stock cat))
      then map (\<lambda>opts. \<lparr>pi_planCode = planCode s, pi_datacenter = d, pi_options = opts,
                         pi_quantity = 1\<rparr>) (remdups (map snd (in_stock cat)))
      else [])"
proof -
  have dcs: "candidate_datacenters cat (auto_intent s d) =
               (if d \<in> set (map fst (in_stock cat)) then [d] else [])"
    using filter_eq_distinct [of "remdups (map fst (in_stock cat))" d]
    by (simp add: candidate_datacenters_def auto_intent_def)
  have opts: "candidate_option_sets cat (auto_intent s d) = remdups (map snd (in_stock cat))"
    by (simp add: candidate_option_sets_def auto_intent_def)
  have fields: "ri_quantity (auto_intent s d) = 1" "ri_planCode (auto_intent s d) = planCode s"
    by (simp_all add: auto_intent_def)
  show ?thesis
    by (simp add: Resolve_def dcs opts Let_def fields)
qed

lemma tasks_at_enqueue:
  "length (tasks_at dc (enqueue cat now interval st (auto_intent s d))) =
     length (tasks_at dc st) + (if d = dc then tasks_per_order cat dc else 0)"
  by (simp add: enqueue_def tasks_at_foldl_Add Resolve_auto_intent tasks_per_order_def
        filter_map comp_def)

lemma tasks_at_foldl_enqueue:
  "well_formed s os \<Longrightarrow>
   length (tasks_at dc (foldl (enqueue cat now interval) st os)) =
     length (tasks_at dc st)
     + length (filter (\<lambda>i. ri_datacenter i = Some dc) os) * tasks_per_order cat dc"
proof (induction os arbitrary: st)
  case Nil
  then show ?case by simp
next
  case (Cons i os)
  from Cons.prems obtain d where i: "i = auto_intent s d"
    by (auto simp: well_formed_def)
  have "well_formed s os" using Cons.prems by (simp add: well_formed_def)
  from Cons.IH [OF this, of "enqueue cat now interval st i"] show ?case
    by (simp add: i tasks_at_enqueue auto_intent_datacenter)
qed

text \<open>Counting a list by the tag of its elements.\<close>

lemma sum_list_indicator:
  "distinct ds \<Longrightarrow> a \<in> set ds \<Longrightarrow> sum_list (map (\<lambda>d. if a = d then 1 else 0) ds) = (1 :: nat)"
  by (induction ds) auto

lemma length_by_tag:
  "distinct ds \<Longrightarrow> \<forall>x \<in> set xs. tag x \<in> set ds \<Longrightarrow>
   length xs = sum_list (map (\<lambda>d. length (filter (\<lambda>x. tag x = d) xs)) ds)"
proof (induction xs)
  case Nil
  then show ?case by simp
next
  case (Cons x xs)
  have split: "\<And>d. length (filter (\<lambda>y. tag y = d) (x # xs)) =
                 (if tag x = d then 1 else 0) + length (filter (\<lambda>y. tag y = d) xs)"
    by simp
  have "sum_list (map (\<lambda>d. length (filter (\<lambda>y. tag y = d) (x # xs))) ds) =
        sum_list (map (\<lambda>d. if tag x = d then 1 else 0) ds)
        + sum_list (map (\<lambda>d. length (filter (\<lambda>y. tag y = d) xs)) ds)"
    by (simp only: split sum_list_addf)
  also have "\<dots> = 1 + length xs"
    using Cons by (simp add: sum_list_indicator)
  finally show ?case by simp
qed

lemma transitions_Nil_iff:
  "0 < transitions_into_available prev ss \<Longrightarrow> ss \<noteq> []"
  by (cases ss) simp_all

lemma observations_seen:
  "observations d polls \<noteq> [] \<Longrightarrow> watched s d \<Longrightarrow> d \<in> set (seen_datacenters s polls)"
proof -
  assume ne: "observations d polls \<noteq> []" and w: "watched s d"
  then obtain poll where p: "poll \<in> set polls" and r: "reported d (snd poll) \<noteq> []"
    by (auto simp: observations_def)
  then obtain report where a: "snd poll = Availability report"
    by (cases "snd poll") auto
  with r have "d \<in> set (map fst report)"
    by (auto simp: filter_empty_conv)
  with p a w show ?thesis
    by (force simp: seen_datacenters_def)
qed


lemma run_monitor_well_formed:
  "well_formed s (all_auto_orders (sent (run_monitor cap s polls)))"
  using foldl_tick_well_formed [of "start s" cap polls]
  by (simp add: run_monitor_def start_simps well_formed_def)

lemma run_monitor_count:
  "autoOrder s \<Longrightarrow> watched s dc \<Longrightarrow>
   length (auto_orders dc (sent (run_monitor cap s polls))) =
     transitions_into_available (lastStatus s dc) (observations dc polls)"
  using foldl_tick_count [of "start s" dc cap polls]
  by (simp add: run_monitor_def start_simps)

lemma run_monitor_total:
  assumes "autoOrder s"
  shows "length (all_auto_orders (sent (run_monitor cap s polls))) =
           sum_list (map (\<lambda>d. transitions_into_available (lastStatus s d) (observations d polls))
                      (seen_datacenters s polls))"
proof -
  let ?all = "all_auto_orders (sent (run_monitor cap s polls))"
  let ?seen = "seen_datacenters s polls"
  have tagged: "\<forall>i \<in> set ?all. ri_datacenter i \<in> set (map Some ?seen)"
  proof
    fix i assume i: "i \<in> set ?all"
    with run_monitor_well_formed [of s cap polls]
    obtain d where w: "watched s d" and eq: "i = auto_intent s d"
      by (auto simp: well_formed_def)
    from i eq have "i \<in> set (auto_orders d (sent (run_monitor cap s polls)))"
      by (simp add: auto_orders_def auto_intent_datacenter)
    then have "0 < length (auto_orders d (sent (run_monitor cap s polls)))"
      by (auto simp: length_greater_0_conv)
    then have "0 < transitions_into_available (lastStatus s d) (observations d polls)"
      by (simp add: run_monitor_count [OF assms w])
    then have "observations d polls \<noteq> []" by (rule transitions_Nil_iff)
    then have "d \<in> set ?seen" using w by (rule observations_seen)
    then show "ri_datacenter i \<in> set (map Some ?seen)"
      by (simp add: eq auto_intent_datacenter)
  qed
  have "distinct (map Some ?seen)"
    by (simp add: distinct_map seen_datacenters_def)
  from length_by_tag [OF this tagged]
  have "length ?all =
          sum_list (map (\<lambda>d. length (auto_orders d (sent (run_monitor cap s polls)))) ?seen)"
    by (simp add: comp_def auto_orders_def)
  also have "\<dots> = sum_list (map (\<lambda>d. transitions_into_available (lastStatus s d)
                                   (observations d polls)) ?seen)"
  proof (rule arg_cong [where f = sum_list], rule map_cong [OF refl])
    fix d assume "d \<in> set ?seen"
    then have "watched s d" by (simp add: seen_datacenters_def)
    with assms show "length (auto_orders d (sent (run_monitor cap s polls))) =
             transitions_into_available (lastStatus s d) (observations d polls)"
      by (rule run_monitor_count)
  qed
  finally show ?thesis .
qed

lemma observations_polls0:
  "observations (str ''gra'') polls0 = [available, available, unavailable, available]"
  by (simp add: observations_def polls0_def)

lemma available_not_unavailable: "unavailable \<noteq> available"
  by (simp add: available_def unavailable_def str_def)

lemma sub0_simps:
  "autoOrder sub0" "watched sub0 d" "lastStatus sub0 d = None"
  by (simp_all add: sub0_def watched_def)

lemma catalog0_simps:
  "tasks_per_order catalog0 (str ''gra'') = 2"
  by (simp add: tasks_per_order_def catalog0_def str_def)

text \<open>
  Claim C6, as stated: one auto-order task is enqueued per transition into "available".
  The intent handed on has wildcard options, which the catalog filter expands into one
  task per in-stock option combination: with two combinations in stock, a single
  transition of "gra" into "available" enqueues two tasks.
\<close>

theorem two_tasks_for_one_transition_counterexample:
  "autoOrder sub0
   \<and> transitions_into_available (lastStatus sub0 (str ''gra''))
       (observations (str ''gra'') [(str ''t1'', Availability [(str ''gra'', available)])]) = 1
   \<and> length (tasks (enqueue_auto_orders catalog0 (str ''t1'') (Num 30) empty_store
               (sent (run_monitor 10 sub0
                  [(str ''t1'', Availability [(str ''gra'', available)])])))) = 2"
  by (simp add: sub0_def observations_def run_monitor_def tick_def observe_def start_def
        watched_def all_auto_orders_def enqueue_auto_orders_def enqueue_def Resolve_def
        candidate_datacenters_def candidate_option_sets_def auto_intent_def catalog0_def
        Add_def empty_store_def Let_def available_def str_def)

text \<open>
  Claim C6, amended. For every subscription with auto-order enabled, the MonitorEngine
  hands on exactly one automatic order per transition of a watched datacenter's status
  into "available", and nothing else: over any sequence of ticks every order it emits is
  the intent for this plan, a watched datacenter, quantity 1 and wildcard options; the
  orders for a datacenter are as many as the transitions into "available" among the
  statuses observed for it, counted from the last known status (a failed fetch observes
  nothing); and all the orders together are as many as these transitions summed over the
  watched datacenters that were reported. Two consecutive polls that both report
  "available" give one order in all, never two (and none when the status was already
  known to be available). The tasks enqueued for a datacenter through CatalogFilter and
  TaskStore.Add are then one per transition and per in-stock option combination of the
  catalog: none when the datacenter is not in stock, exactly one per transition when the
  catalog has a single option combination.
\<close>

theorem auto_order_edge_triggered:
  assumes "autoOrder s" and "watched s dc"
  shows "(\<forall>i \<in> set (all_auto_orders (sent (run_monitor cap s polls))).
            \<exists>d. watched s d
               \<and> i = \<lparr>ri_planCode = planCode s, ri_datacenter = Some d, ri_quantity = 1,
                       ri_options = None\<rparr>)
       \<and> length (auto_orders dc (sent (run_monitor cap s polls))) =
           transitions_into_available (lastStatus s dc) (observations dc polls)
       \<and> length (all_auto_orders (sent (run_monitor cap s polls))) =
           sum_list (map (\<lambda>d. transitions_into_available (lastStatus s d) (observations d polls))
                      (seen_datacenters s polls))
       \<and> length (all_auto_orders (sent (run_monitor cap s
                   [(t1, Availability [(dc, available)]),
                    (t2, Availability [(dc, available)])]))) =
           (if lastStatus s dc = Some available then 0 else 1)
       \<and> length (tasks_at dc (enqueue_auto_orders cat now interval st
                   (sent (run_monitor cap s polls)))) =
           length (tasks_at dc st)
           + transitions_into_available (lastStatus s dc) (observations dc polls)
             * tasks_per_order cat dc"
proof -
  let ?out = "sent (run_monitor cap s polls)"
  have wf: "well_formed s (all_auto_orders ?out)" by (rule run_monitor_well_formed)
  then have shape: "\<forall>i \<in> set (all_auto_orders ?out).
            \<exists>d. watched s d
               \<and> i = \<lparr>ri_planCode = planCode s, ri_datacenter = Some d, ri_quantity = 1,
                       ri_options = None\<rparr>"
    by (simp add: well_formed_def auto_intent_def)
  have count: "length (auto_orders dc ?out) =
           transitions_into_available (lastStatus s dc) (observations dc polls)"
    using assms by (rule run_monitor_count)
  have total: "\<And>ps. length (all_auto_orders (sent (run_monitor cap s ps))) =
           sum_list (map (\<lambda>d. transitions_into_available (lastStatus s d) (observations d ps))
                      (seen_datacenters s ps))"
    using assms(1) by (rule run_monitor_total)
  let ?two = "[(t1, Availability [(dc, available)]), (t2, Availability [(dc, available)])]"
  have "seen_datacenters s ?two = [dc]"
    using assms(2) by (simp add: seen_datacenters_def)
  moreover have "observations dc ?two = [available, available]"
    by (simp add: observations_def)
  ultimately have twice: "length (all_auto_orders (sent (run_monitor cap s ?two))) =
           (if lastStatus s dc = Some available then 0 else 1)"
    by (simp add: total)
  have "length (tasks_at dc (enqueue_auto_orders cat now interval st ?out)) =
          length (tasks_at dc st) + length (auto_orders dc ?out) * tasks_per_order cat dc"
    using tasks_at_foldl_enqueue [OF wf, of dc cat now interval st]
    by (simp add: enqueue_auto_orders_def auto_orders_def)
  then have made: "length (tasks_at dc (enqueue_auto_orders cat now interval st ?out)) =
           length (tasks_at dc st)
           + transitions_into_available (lastStatus s dc) (observations dc polls)
             * tasks_per_order cat dc"
    by (simp add: count)
  from shape count total [of polls] twice made show ?thesis by blast
qed

theorem auto_order_edge_triggered_witness:
  "autoOrder sub0
   \<and> watched sub0 (str ''gra'')
   \<and> length (auto_orders (str ''gra'') (sent (run_monitor 10 sub0 polls0))) = 2
   \<and> length (all_auto_orders (sent (run_monitor 10 sub0 polls0))) = 2
   \<and> length (all_auto_orders (sent (run_monitor 10 sub0
               [(str ''t1'', Availability [(str ''gra'', available)]),
                (str ''t2'', Availability [(str ''gra'', available)])]))) = 1
   \<and> length (tasks_at (str ''gra'') (enqueue_auto_orders catalog0 (str ''t6'') (Num 30)
               empty_store (sent (run_monitor 10 sub0 polls0)))) = 4"
proof -
  note a = sub0_simps(1) and w = sub0_simps(2) [of "str ''gra''"]
    and l = sub0_simps(3) [of "str ''gra''"]
  note inst = auto_order_edge_triggered [OF a w, of 10 polls0 "str ''t1''" "str ''t2''"
      catalog0 "str ''t6''" "Num 30" empty_store]
  have trans: "transitions_into_available (lastStatus sub0 (str ''gra''))
                 (observations (str ''gra'') polls0) = 2"
    by (simp add: l observations_polls0 available_not_unavailable)
  have seen: "seen_datacenters sub0 polls0 = [str ''gra'']"
    by (simp add: seen_datacenters_def polls0_def sub0_simps(2))
  have none: "tasks_at (str ''gra'') empty_store = []"
    by (simp add: tasks_at_def empty_store_def)
  from inst have "length (auto_orders (str ''gra'') (sent (run_monitor 10 sub0 polls0))) = 2"
    by (simp add: trans)
  moreover from inst have "length (all_auto_orders (sent (run_monitor 10 sub0 polls0))) = 2"
    by (simp add: seen trans)
  moreover from inst have "length (all_auto_orders (sent (run_monitor 10 sub0
               [(str ''t1'', Availability [(str ''gra'', available)]),
                (str ''t2'', Availability [(str ''gra'', available)])]))) = 1"
    by (simp add: l)
  moreover from inst have "length (tasks_at (str ''gra'') (enqueue_auto_orders catalog0
               (str ''t6'') (Num 30) empty_store (sent (run_monitor 10 sub0 polls0)))) = 4"
    by (simp add: trans none catalog0_simps)
  ultimately show ?thesis using a w by blast
qed

end
